theory Spec2Isabelle
  imports Complex_Main
begin

unbundle bit_operations_syntax

section \<open>Python strings\<close>

text \<open>
  A Python \<open>str\<close> is modelled as a \<open>string\<close>: one \<open>char\<close> per character, which covers
  the code points below 256. All tool output that \<open>spawn_vm.py\<close> reads (\<open>arp -an\<close>,
  \<open>ipconfig\<close>) lies in that range.
\<close>

text \<open>\<open>sep.join(xs)\<close>.\<close>

fun join :: "string \<Rightarrow> string list \<Rightarrow> string" where
  "join sep [] = []"
| "join sep [x] = x"
| "join sep (x # y # ys) = x @ sep @ join sep (y # ys)"

text \<open>\<open>s.split(c)\<close> for a separator of one character: empty fields are kept.\<close>

fun split_on :: "char \<Rightarrow> string \<Rightarrow> string list" where
  "split_on c [] = [[]]"
| "split_on c (x # xs) =
     (if x = c then [] # split_on c xs
      else (case split_on c xs of
              [] \<Rightarrow> [[x]]
            | y # ys \<Rightarrow> (x # y) # ys))"

section \<open>Formatting an integer as \<open>02x\<close>\<close>

definition hexdigit :: "nat \<Rightarrow> char" where
  "hexdigit d = ''0123456789abcdef'' ! d"

function hex_digits :: "nat \<Rightarrow> string" where
  "hex_digits n =
     (if n < 16 then [hexdigit n] else hex_digits (n div 16) @ [hexdigit (n mod 16)])"
  by pat_completeness auto
termination
  by (relation "measure id") auto

declare hex_digits.simps [simp del]

definition zfill :: "nat \<Rightarrow> string \<Rightarrow> string" where
  "zfill w s = replicate (w - length s) CHR ''0'' @ s"

text \<open>
  \<open>f"{b:02x}"\<close>: lowercase hexadecimal, zero-padded to width 2; the sign of a negative
  number counts towards the width and precedes the padding.
\<close>

definition format_02x :: "int \<Rightarrow> string" where
  "format_02x b =
     (if b < 0 then CHR ''-'' # zfill 1 (hex_digits (nat (- b)))
      else zfill 2 (hex_digits (nat b)))"

section \<open>The random source\<close>

text \<open>
  Python's module-level generator is global state. Its state is modelled as the sequence
  of raw values it will yield, a function of the index. \<open>random.randint(a, b)\<close>, called
  here with literal bounds \<open>a \<le> b\<close> only, takes the next raw value into the closed range
  \<open>a..b\<close> and advances the state. The Mersenne Twister itself belongs to the standard
  library and is not modelled.
\<close>

type_synonym rng = "nat \<Rightarrow> nat"

definition randint :: "rng \<Rightarrow> int \<Rightarrow> int \<Rightarrow> int \<times> rng" where
  "randint g a b = (a + int (g 0) mod (b - a + 1), \<lambda>i. g (Suc i))"

text \<open>
  \<open>random.seed(name)\<close> replaces the generator's state by one derived from \<open>name\<close> alone;
  the derivation (a hash of the string) is the parameter \<open>derive\<close>.
\<close>

definition random_seed :: "(string \<Rightarrow> rng) \<Rightarrow> string \<Rightarrow> rng \<Rightarrow> rng" where
  "random_seed derive name g = derive name"

section \<open>\<open>gen_mac\<close>\<close>

definition gen_mac :: "rng \<Rightarrow> int option \<Rightarrow> string \<times> rng" where
  "gen_mac g last_octet =
     (let (o4, g1) = randint g 0x00 0x7f;
          (o5, g2) = randint g1 0x00 0xff;
          (o6, g3) = (case last_octet of
                        None \<Rightarrow> randint g2 0x00 0xff
                      | Some lo \<Rightarrow> (lo AND 0xFF, g2));
          mac = [0x52, 0x54, 0x00, o4, o5, o6]
      in (join '':'' (map format_02x mac), g3))"

text \<open>
  Lines 199 to 202 of \<open>main\<close>: seed the generator with the guest name, then generate.
  \<open>g0\<close> is the state the generator had when the process started.
\<close>

definition main_mac :: "(string \<Rightarrow> rng) \<Rightarrow> string \<Rightarrow> rng \<Rightarrow> string" where
  "main_mac derive name g0 = fst (gen_mac (random_seed derive name g0) None)"

text \<open>Reading a MAC string back: its colon-separated fields and their values.\<close>

definition is_hex_pair :: "string \<Rightarrow> bool" where
  "is_hex_pair s = (length s = 2 \<and> list_all (\<lambda>c. c \<in> set ''0123456789abcdef'') s)"

definition hexval_char :: "char \<Rightarrow> nat" where
  "hexval_char c = length (takeWhile (\<lambda>d. d \<noteq> c) ''0123456789abcdef'')"

definition hexval :: "string \<Rightarrow> nat" where
  "hexval s = foldl (\<lambda>acc c. 16 * acc + hexval_char c) 0 s"

definition mac_fields :: "string \<Rightarrow> string list" where
  "mac_fields s = split_on CHR '':'' s"

text \<open>The three variable octets that \<open>gen_mac\<close> draws, and the string built from them.\<close>

definition octets_of :: "rng \<Rightarrow> int option \<Rightarrow> int \<times> int \<times> int" where
  "octets_of g lo = (int (g 0) mod 128, int (g (Suc 0)) mod 256,
     (case lo of None \<Rightarrow> int (g (Suc (Suc 0))) mod 256 | Some l \<Rightarrow> l AND 255))"

definition mac_of :: "int \<times> int \<times> int \<Rightarrow> string" where
  "mac_of t = (case t of (a, b, c) \<Rightarrow>
     ''52:54:00:'' @ format_02x a @ '':'' @ format_02x b @ '':'' @ format_02x c)"


section \<open>Exceptions and the host\<close>

text \<open>
  Every exception the modelled code can raise is a value. \<open>OSError\<close> stands for what
  \<open>subprocess.run\<close> and \<open>subprocess.Popen\<close> raise when the program cannot be started
  (\<open>FileNotFoundError\<close>, \<open>PermissionError\<close>); the other three come from \<open>run\<close> and from
  the \<open>ipaddress\<close> module.
\<close>

datatype error =
    OSError
  | RuntimeError string
  | AddressValueError
  | NetmaskValueError

text \<open>
  The result of \<open>subprocess.run(..., stdout=PIPE, stderr=PIPE, text=True)\<close>, and the host
  on which the script runs: what starting a command gives, what \<open>subprocess.Popen\<close> gives
  (\<open>None\<close> when the process was started) and the effective user id.
\<close>

record completed =
  returncode :: int
  stdout :: string
  stderr :: string

record host =
  subprocess_run :: "string list \<Rightarrow> error + completed"
  popen :: "string list \<Rightarrow> error option"
  geteuid :: nat

text \<open>
  \<open>str.strip()\<close>: the characters below 256 for which \<open>str.isspace()\<close> holds are tab, line
  feed, vertical tab, form feed, carriage return, the separators \<open>0x1c..0x1f\<close>, space,
  \<open>0x85\<close> and \<open>0xa0\<close>.
\<close>

definition isspace :: "char \<Rightarrow> bool" where
  "isspace c = (of_char c \<in> {9, 10, 11, 12, 13, 28, 29, 30, 31, 32, 133, 160 :: nat})"

definition strip :: "string \<Rightarrow> string" where
  "strip s = rev (dropWhile isspace (rev (dropWhile isspace s)))"

text \<open>
  \<open>run\<close>, lines 41 to 54. Every caller in the file passes the command as a list and
  leaves \<open>capture\<close> at its default, so \<open>cmd\<close> is a list and \<open>result.stdout\<close> is a string.
\<close>

definition run :: "host \<Rightarrow> string list \<Rightarrow> bool \<Rightarrow> bool \<Rightarrow> error + string" where
  "run h cmd check sudo =
     (let cmd_list = (if sudo \<and> geteuid h \<noteq> 0 then ''sudo'' # cmd else cmd) in
      case subprocess_run h cmd_list of
        Inl e \<Rightarrow> Inl e
      | Inr result \<Rightarrow>
          if check \<and> returncode result \<noteq> 0
          then Inl (RuntimeError (''CMD failed: '' @ join '' '' cmd_list @
                 [CHR 0x0A] @ ''STDERR:'' @ [CHR 0x0A] @ stderr result))
          else Inr (strip (stdout result)))"

text \<open>\<open>s or None\<close> for a string \<open>s\<close>.\<close>

definition or_None :: "string \<Rightarrow> string option" where
  "or_None s = (if s = [] then None else Some s)"

text \<open>\<open>get_if_ip_netmask\<close>, lines 83 to 87.\<close>

definition get_if_ip_netmask :: "host \<Rightarrow> string \<Rightarrow> error + (string option \<times> string option)" where
  "get_if_ip_netmask h ifname =
     (case run h [''ipconfig'', ''getifaddr'', ifname] False False of
        Inl e \<Rightarrow> Inl e
      | Inr ip \<Rightarrow>
          (case run h [''ipconfig'', ''getoption'', ifname, ''subnet_mask''] False False of
             Inl e \<Rightarrow> Inl e
           | Inr mask' \<Rightarrow> Inr (or_None (strip ip), or_None (strip mask'))))"

section \<open>The neighbour cache: \<open>arp_lookup_by_mac\<close>\<close>

text \<open>
  \<open>str.lower()\<close> on characters below 256: the ASCII capitals and the Latin-1 capitals
  \<open>0xc0..0xde\<close> (the multiplication sign \<open>0xd7\<close> apart) move up by 32.
\<close>

definition lower_char :: "char \<Rightarrow> char" where
  "lower_char c =
     (let n = (of_char c :: nat) in
      if (65 \<le> n \<and> n \<le> 90) \<or> (192 \<le> n \<and> n \<le> 222 \<and> n \<noteq> 215) then char_of (n + 32) else c)"

definition lower :: "string \<Rightarrow> string" where
  "lower s = map lower_char s"

text \<open>
  \<open>str.splitlines()\<close>: a line ends at a line feed, a carriage return (with the line feed
  that follows it, if any), a vertical tab, a form feed, one of \<open>0x1c..0x1e\<close> or \<open>0x85\<close>;
  no empty line is reported after the last line break.
\<close>

definition is_linebreak :: "char \<Rightarrow> bool" where
  "is_linebreak c = (of_char c \<in> {10, 11, 12, 13, 28, 29, 30, 133 :: nat})"

function splitlines :: "string \<Rightarrow> string list" where
  "splitlines [] = []"
| "splitlines (x # xs) =
     (if is_linebreak x
      then [] # splitlines (if x = CHR 0x0D \<and> take 1 xs = [CHR 0x0A] then drop 1 xs else xs)
      else (case splitlines xs of
              [] \<Rightarrow> [[x]]
            | l # ls \<Rightarrow> (x # l) # ls))"
  by pat_completeness auto
termination
  by (relation "measure length") auto

text \<open>
  The pattern of line 103 is a sequence of quantified character classes with two groups:
  \<^verbatim>\<open>\((?P<ip>\d+\.\d+\.\d+\.\d+)\).* at (?P<mac>[0-9a-f:]{17}) \<close> under \<open>re.I\<close>.
  Such a pattern is a list of items; \<open>Mark\<close> records the position of a group boundary.
\<close>

datatype quant = Once | OneOrMore | ZeroOrMore | Exactly nat

datatype item = Chars "char \<Rightarrow> bool" quant | Mark

text \<open>
  Matching at a fixed start, as the backtracking matcher of \<open>re\<close> does it: a greedy
  quantifier first takes one more character and gives it back only if the rest of the
  pattern then fails. The result is the list of the remaining inputs at each \<open>Mark\<close>,
  followed by the remaining input at the end of the match.
\<close>

fun rmatch :: "item list \<Rightarrow> string \<Rightarrow> string list option" where
  "rmatch [] s = Some [s]"
| "rmatch (Mark # ps) s = map_option ((#) s) (rmatch ps s)"
| "rmatch (Chars c Once # ps) s =
     (case s of [] \<Rightarrow> None | x # xs \<Rightarrow> if c x then rmatch ps xs else None)"
| "rmatch (Chars c OneOrMore # ps) s =
     (case s of [] \<Rightarrow> None
      | x # xs \<Rightarrow> if c x then rmatch (Chars c ZeroOrMore # ps) xs else None)"
| "rmatch (Chars c ZeroOrMore # ps) s =
     (case s of [] \<Rightarrow> rmatch ps s
      | x # xs \<Rightarrow>
          if c x
          then (case rmatch (Chars c ZeroOrMore # ps) xs of
                  Some r \<Rightarrow> Some r
                | None \<Rightarrow> rmatch ps s)
          else rmatch ps s)"
| "rmatch (Chars c (Exactly n) # ps) s =
     (if n = 0 then rmatch ps s
      else (case s of [] \<Rightarrow> None
            | x # xs \<Rightarrow> if c x then rmatch (Chars c (Exactly (n - 1)) # ps) xs else None))"

text \<open>\<open>re.search\<close>: the match at the leftmost start position that has one.\<close>

fun re_search :: "item list \<Rightarrow> string \<Rightarrow> string list option" where
  "re_search ps [] = rmatch ps []"
| "re_search ps (x # xs) =
     (case rmatch ps (x # xs) of Some r \<Rightarrow> Some r | None \<Rightarrow> re_search ps xs)"

text \<open>The character classes of the pattern. Under \<open>re.I\<close> a letter matches both cases.\<close>

definition lit :: "char \<Rightarrow> item" where
  "lit c = Chars (\<lambda>x. lower_char x = lower_char c) Once"

definition is_digit :: "char \<Rightarrow> bool" where
  "is_digit c = (48 \<le> (of_char c :: nat) \<and> (of_char c :: nat) \<le> 57)"

definition not_newline :: "char \<Rightarrow> bool" where
  "not_newline c = (c \<noteq> CHR 0x0A)"

definition mac_char :: "char \<Rightarrow> bool" where
  "mac_char c = (is_digit c \<or> lower_char c \<in> set ''abcdef'' \<or> c = CHR '':'')"

definition arp_pattern :: "item list" where
  "arp_pattern =
     [lit CHR ''('', Mark,
      Chars is_digit OneOrMore, lit CHR ''.'', Chars is_digit OneOrMore, lit CHR ''.'',
      Chars is_digit OneOrMore, lit CHR ''.'', Chars is_digit OneOrMore,
      Mark, lit CHR '')'', Chars not_newline ZeroOrMore,
      lit CHR '' '', lit CHR ''a'', lit CHR ''t'', lit CHR '' '',
      Mark, Chars mac_char (Exactly 17), Mark, lit CHR '' '']"

text \<open>The text between two recorded positions.\<close>

definition between :: "string \<Rightarrow> string \<Rightarrow> string" where
  "between a b = take (length a - length b) a"

text \<open>The groups \<open>ip\<close> and \<open>mac\<close> of the match on one line, if the line matches.\<close>

definition arp_entry :: "string \<Rightarrow> (string \<times> string) option" where
  "arp_entry line =
     (case re_search arp_pattern line of
        Some [a, b, c, d, e] \<Rightarrow> Some (between a b, between c d)
      | _ \<Rightarrow> None)"

text \<open>The \<open>for\<close> loop of lines 101 to 106.\<close>

fun scan_lines :: "string list \<Rightarrow> string \<Rightarrow> string option" where
  "scan_lines [] mac_lower = None"
| "scan_lines (line # rest) mac_lower =
     (case arp_entry line of
        Some (ip, mac) \<Rightarrow> if lower mac = mac_lower then Some ip else scan_lines rest mac_lower
      | None \<Rightarrow> scan_lines rest mac_lower)"

definition arp_lookup_by_mac :: "host \<Rightarrow> string \<Rightarrow> error + string option" where
  "arp_lookup_by_mac h mac_lower =
     (case run h [''arp'', ''-an''] False False of
        Inl e \<Rightarrow> Inl e
      | Inr out \<Rightarrow> Inr (scan_lines (splitlines out) mac_lower))"

text \<open>
  What the specification asks of the lookup, in its own words: the entries of the cache
  text, and the address of the first entry whose MAC equals the target without regard to
  case.
\<close>

definition cache_entries :: "string \<Rightarrow> (string \<times> string) list" where
  "cache_entries out = List.map_filter arp_entry (splitlines out)"

definition mac_eq_ci :: "string \<Rightarrow> string \<Rightarrow> bool" where
  "mac_eq_ci a b = (lower a = lower b)"

definition first_ip_with_mac :: "(string \<times> string) list \<Rightarrow> string \<Rightarrow> string option" where
  "first_ip_with_mac entries target =
     map_option fst (List.find (\<lambda>e. mac_eq_ci (snd e) target) entries)"

text \<open>A host whose commands all succeed, printing what \<open>out\<close> gives for each command.\<close>

definition printing :: "(string list \<Rightarrow> string) \<Rightarrow> host" where
  "printing out =
     \<lparr>subprocess_run = (\<lambda>cmd. Inr \<lparr>returncode = 0, stdout = out cmd, stderr = []\<rparr>),
      popen = (\<lambda>cmd. None), geteuid = 501\<rparr>"

section \<open>The \<open>ipaddress\<close> module\<close>

text \<open>
  The part of the standard library's \<open>ipaddress\<close> module (as of CPython 3.9.5) that
  \<open>spawn_vm.py\<close> calls. An \<open>IPv4Address\<close> is its 32-bit value, a Python integer; an
  \<open>IPv4Network\<close> is its network address and prefix length. \<open>AddressValueError\<close> and
  \<open>NetmaskValueError\<close> are results; the \<open>ValueError\<close> that the module raises and catches
  inside is \<open>None\<close>.
\<close>

text \<open>\<open>int(s, 10)\<close> for a string of ASCII digits.\<close>

definition int_of_digits :: "string \<Rightarrow> int" where
  "int_of_digits s = foldl (\<lambda>a c. 10 * a + (of_char c - 48)) 0 s"

definition parse_octet :: "string \<Rightarrow> int option" where
  "parse_octet octet_str =
     (if octet_str = [] then None
      else if \<not> list_all is_digit octet_str then None
      else if length octet_str > 3 then None
      else if octet_str \<noteq> ''0'' \<and> hd octet_str = CHR ''0'' then None
      else if int_of_digits octet_str > 255 then None
      else Some (int_of_digits octet_str))"

definition from_bytes_big :: "int list \<Rightarrow> int" where
  "from_bytes_big bs = foldl (\<lambda>a b. 256 * a + b) 0 bs"

definition ip_int_from_string :: "string \<Rightarrow> error + int" where
  "ip_int_from_string ip_str =
     (if ip_str = [] then Inl AddressValueError
      else let octets = split_on CHR ''.'' ip_str in
        if length octets \<noteq> 4 then Inl AddressValueError
        else (case those (map parse_octet octets) of
                None \<Rightarrow> Inl AddressValueError
              | Some bs \<Rightarrow> Inr (from_bytes_big bs)))"

definition IPv4Address :: "string \<Rightarrow> error + int" where
  "IPv4Address addr_str =
     (if CHR ''/'' \<in> set addr_str then Inl AddressValueError
      else ip_int_from_string addr_str)"

definition ALL_ONES :: int where
  "ALL_ONES = 2 ^ 32 - 1"

definition prefix_from_prefix_string :: "string \<Rightarrow> error + nat" where
  "prefix_from_prefix_string prefixlen_str =
     (if \<not> (prefixlen_str \<noteq> [] \<and> list_all is_digit prefixlen_str) then Inl NetmaskValueError
      else if int_of_digits prefixlen_str \<le> 32 then Inr (nat (int_of_digits prefixlen_str))
      else Inl NetmaskValueError)"

text \<open>The number of zero bits at the low end of \<open>number\<close>, at most \<open>bits\<close>.\<close>

fun count_righthand_zero_bits :: "int \<Rightarrow> nat \<Rightarrow> nat" where
  "count_righthand_zero_bits number 0 = 0"
| "count_righthand_zero_bits number (Suc bits) =
     (if number = 0 then Suc bits
      else if odd number then 0
      else min (Suc bits) (Suc (count_righthand_zero_bits (number div 2) bits)))"

definition prefix_from_ip_int :: "int \<Rightarrow> nat option" where
  "prefix_from_ip_int ip_int =
     (let trailing_zeroes = count_righthand_zero_bits ip_int 32;
          prefixlen = 32 - trailing_zeroes;
          leading_ones = drop_bit trailing_zeroes ip_int;
          all_ones = push_bit prefixlen 1 - 1
      in if leading_ones \<noteq> all_ones then None else Some prefixlen)"

definition prefix_from_ip_string :: "string \<Rightarrow> error + nat" where
  "prefix_from_ip_string ip_str =
     (case ip_int_from_string ip_str of
        Inl e \<Rightarrow> Inl NetmaskValueError
      | Inr ip_int \<Rightarrow>
          (case prefix_from_ip_int ip_int of
             Some p \<Rightarrow> Inr p
           | None \<Rightarrow>
               (case prefix_from_ip_int (ip_int XOR ALL_ONES) of
                  Some p \<Rightarrow> Inr p
                | None \<Rightarrow> Inl NetmaskValueError)))"

text \<open>\<open>_make_netmask\<close> for a string argument; the result is the prefix length.\<close>

definition make_netmask :: "string \<Rightarrow> error + nat" where
  "make_netmask arg =
     (case prefix_from_prefix_string arg of
        Inr p \<Rightarrow> Inr p
      | Inl e \<Rightarrow> prefix_from_ip_string arg)"

definition ip_int_from_prefix :: "nat \<Rightarrow> int" where
  "ip_int_from_prefix prefixlen = ALL_ONES XOR drop_bit prefixlen ALL_ONES"

record ipv4network =
  network_address :: int
  prefixlen :: nat

text \<open>\<open>IPv4Network(address, strict=False)\<close> for a string: host bits are masked off.\<close>

definition IPv4Network :: "string \<Rightarrow> error + ipv4network" where
  "IPv4Network address =
     (let addr = split_on CHR ''/'' address in
      if length addr > 2 then Inl AddressValueError
      else (case IPv4Address (hd addr) of
              Inl e \<Rightarrow> Inl e
            | Inr packed \<Rightarrow>
                (case (if length addr > 1 then make_netmask (addr ! 1) else Inr 32) of
                   Inl e \<Rightarrow> Inl e
                 | Inr p \<Rightarrow>
                     Inr \<lparr>network_address = packed AND ip_int_from_prefix p, prefixlen = p\<rparr>)))"

definition broadcast_address :: "ipv4network \<Rightarrow> int" where
  "broadcast_address n = network_address n OR (ip_int_from_prefix (prefixlen n) XOR ALL_ONES)"

text \<open>
  \<open>network.hosts()\<close> as a list: the addresses strictly between the network and the
  broadcast address; both addresses of a \<open>/31\<close>; the single address of a \<open>/32\<close>.
\<close>

definition hosts :: "ipv4network \<Rightarrow> int list" where
  "hosts n =
     (if prefixlen n = 31 then [network_address n..broadcast_address n]
      else if prefixlen n = 32 then [network_address n]
      else [network_address n + 1..broadcast_address n - 1])"

text \<open>\<open>str\<close> of a natural number, and of an address: its four octets in decimal.\<close>

function str_nat :: "nat \<Rightarrow> string" where
  "str_nat n = (if n < 10 then [char_of (48 + n)] else str_nat (n div 10) @ [char_of (48 + n mod 10)])"
  by pat_completeness auto
termination
  by (relation "measure id") auto

declare str_nat.simps [simp del]

definition str_ipv4 :: "int \<Rightarrow> string" where
  "str_ipv4 a =
     join ''.'' (map (\<lambda>b. str_nat (nat b))
       [a div 2 ^ 24 mod 256, a div 2 ^ 16 mod 256, a div 2 ^ 8 mod 256, a mod 256])"

section \<open>\<open>cidr_from_ip_mask\<close>\<close>

text \<open>Lines 89 to 97: \<open>except Exception\<close> catches whatever the first construction raises.\<close>

definition cidr_from_ip_mask :: "string \<Rightarrow> string \<Rightarrow> error + ipv4network" where
  "cidr_from_ip_mask ip mask' =
     (case IPv4Network (ip @ ''/'' @ mask') of
        Inr m \<Rightarrow> Inr m
      | Inl e \<Rightarrow>
          (let parts = split_on CHR ''.'' ip;
               net = join ''.'' (take 3 parts @ [''0'']) @ ''/24''
           in IPv4Network net))"

section \<open>\<open>light_ping_sweep\<close>\<close>

text \<open>\<open>xs.index(y)\<close>: the first position of \<open>y\<close>, \<open>None\<close> for \<open>ValueError\<close>.\<close>

fun list_index :: "'a list \<Rightarrow> 'a \<Rightarrow> nat option" where
  "list_index [] y = None"
| "list_index (x # xs) y = (if x = y then Some 0 else map_option Suc (list_index xs y))"

text \<open>
  \<open>xs[i:j]\<close> for integers \<open>i\<close> and \<open>j\<close>: a negative bound counts from the end, and both
  bounds are clamped to the list.
\<close>

definition slice_bound :: "int \<Rightarrow> int \<Rightarrow> int" where
  "slice_bound n i = (if i < 0 then max 0 (i + n) else min i n)"

definition slice :: "'a list \<Rightarrow> int \<Rightarrow> int \<Rightarrow> 'a list" where
  "slice xs i j =
     (let n = int (length xs); a = slice_bound n i; b = slice_bound n j
      in take (nat (b - a)) (drop (nat a) xs))"

text \<open>Lines 116 to 122: the index of the host, the half width, the candidates.\<close>

definition window_index :: "int list \<Rightarrow> int \<Rightarrow> int" where
  "window_index hs host' =
     (case list_index hs host' of Some i \<Rightarrow> int i | None \<Rightarrow> int (length hs) div 2)"

definition window_width :: "int list \<Rightarrow> int \<Rightarrow> int" where
  "window_width hs limit = max 1 (min (limit div 2) (int (length hs) div 2))"

definition probe_window :: "int list \<Rightarrow> int \<Rightarrow> int \<Rightarrow> int list" where
  "probe_window hs host' limit =
     (let idx = window_index hs host';
          window = window_width hs limit
      in slice hs (max 0 (idx - window)) (min (int (length hs)) (idx + window)))"

text \<open>The first exception among the results of starting processes in order.\<close>

fun first_error :: "error option list \<Rightarrow> error option" where
  "first_error [] = None"
| "first_error (None # rs) = first_error rs"
| "first_error (Some e # rs) = Some e"

text \<open>
  \<open>light_ping_sweep\<close>, lines 108 to 134. The function returns nothing; the model returns
  what it did: \<open>None\<close> when it returned at line 113, otherwise the addresses it pinged
  before sleeping for half a second.
\<close>

definition light_ping_sweep :: "host \<Rightarrow> string \<Rightarrow> ipv4network \<Rightarrow> int \<Rightarrow> error + int list option" where
  "light_ping_sweep h ifname network limit =
     (case get_if_ip_netmask h ifname of
        Inl e \<Rightarrow> Inl e
      | Inr (host_ip, _) \<Rightarrow>
          (case host_ip of
             None \<Rightarrow> Inr None
           | Some s \<Rightarrow>
               if s = [] then Inr None
               else (case IPv4Address s of
                       Inl e \<Rightarrow> Inl e
                     | Inr host' \<Rightarrow>
                         (let candidates = probe_window (hosts network) host' limit in
                          case first_error
                                 (map (\<lambda>ip. popen h [''ping'', ''-c'', ''1'', ''-W'', ''100'', str_ipv4 ip])
                                    candidates) of
                            Some e \<Rightarrow> Inl e
                          | None \<Rightarrow> Inr (Some candidates)))))"

section \<open>The discovery loop of \<open>main\<close>\<close>

text \<open>
  Wall-clock time is a rational number of seconds, read by \<open>time.time()\<close> and advanced by
  \<open>time.sleep\<close> only: commands take no time. The host may answer differently at different
  times, so the loop takes the host as a function of the time. The loop keeps a log of
  the sweeps it fired: the time of each and what the sweep did.
\<close>

type_synonym sweep_log = "(rat \<times> int list option) list"

text \<open>
  Lines 225 to 233. Every iteration sleeps for half a second, so the time left until the
  deadline, counted in half seconds, decreases.
\<close>

function discovery_loop ::
  "(rat \<Rightarrow> host) \<Rightarrow> string \<Rightarrow> ipv4network option \<Rightarrow> string \<Rightarrow> rat \<Rightarrow> rat \<Rightarrow> rat \<Rightarrow> rat \<Rightarrow>
     sweep_log \<Rightarrow> error + (string option \<times> rat \<times> sweep_log)" where
  "discovery_loop w ifname subnet mac_lower t0 timeout next_sweep now sweeps =
     (if now - t0 < timeout then
        (case arp_lookup_by_mac (w now) mac_lower of
           Inl e \<Rightarrow> Inl e
         | Inr ip \<Rightarrow>
             if ip \<noteq> None \<and> ip \<noteq> Some [] then Inr (ip, now, sweeps)
             else if subnet \<noteq> None \<and> now \<ge> next_sweep then
               (case light_ping_sweep (w now) ifname (the subnet) 64 of
                  Inl e \<Rightarrow> Inl e
                | Inr did \<Rightarrow>
                    (let now' = (if did = None then now else now + 1 / 2) in
                     discovery_loop w ifname subnet mac_lower t0 timeout (now' + 5) (now' + 1 / 2)
                       (sweeps @ [(now, did)])))
             else discovery_loop w ifname subnet mac_lower t0 timeout next_sweep (now + 1 / 2) sweeps)
      else Inr (None, now, sweeps))"
  by pat_completeness auto
termination
proof (relation "measure (\<lambda>(w, ifname, subnet, mac_lower, t0, timeout, next_sweep, now, sweeps).
                   nat \<lceil>2 * (t0 + timeout - now)\<rceil>)", goal_cases)
  case 1
  show ?case by simp
next
  case (2 w ifname subnet mac_lower t0 timeout next_sweep now sweeps ip did now')
  then have a: "now' \<ge> now" "now - t0 < timeout" by (auto split: if_splits)
  have "\<lceil>2 * (t0 + timeout - (now' + 1 / 2))\<rceil> = \<lceil>2 * (t0 + timeout - now') - 1\<rceil>"
    by (simp add: algebra_simps)
  also have "\<dots> = \<lceil>2 * (t0 + timeout - now')\<rceil> - 1" by (rule ceiling_diff_one)
  finally have "\<lceil>2 * (t0 + timeout - (now' + 1 / 2))\<rceil> = \<lceil>2 * (t0 + timeout - now')\<rceil> - 1" .
  moreover have "\<lceil>2 * (t0 + timeout - now')\<rceil> \<le> \<lceil>2 * (t0 + timeout - now)\<rceil>"
  proof (rule ceiling_mono)
    show "2 * (t0 + timeout - now') \<le> 2 * (t0 + timeout - now)" using a(1) by simp
  qed
  ultimately have "\<lceil>2 * (t0 + timeout - (now' + 1 / 2))\<rceil> < \<lceil>2 * (t0 + timeout - now)\<rceil>"
    by linarith
  moreover have "0 < \<lceil>2 * (t0 + timeout - now)\<rceil>" using a(2) by simp
  ultimately show ?case by simp
next
  case (3 w ifname subnet mac_lower t0 timeout next_sweep now sweeps ip)
  then have a: "now - t0 < timeout" by simp
  have "\<lceil>2 * (t0 + timeout - (now + 1 / 2))\<rceil> = \<lceil>2 * (t0 + timeout - now) - 1\<rceil>"
    by (simp add: algebra_simps)
  also have "\<dots> = \<lceil>2 * (t0 + timeout - now)\<rceil> - 1" by (rule ceiling_diff_one)
  finally have "\<lceil>2 * (t0 + timeout - (now + 1 / 2))\<rceil> < \<lceil>2 * (t0 + timeout - now)\<rceil>"
    by simp
  moreover have "0 < \<lceil>2 * (t0 + timeout - now)\<rceil>" using a by simp
  ultimately show ?case by simp
qed

declare discovery_loop.simps [simp del]

text \<open>
  Lines 207 to 233 of \<open>main\<close>, started at time \<open>start\<close> with the MAC that was generated
  and the value of \<open>--timeout\<close>, an integer.
\<close>

definition discover :: "(rat \<Rightarrow> host) \<Rightarrow> string \<Rightarrow> string \<Rightarrow> int \<Rightarrow> rat \<Rightarrow>
    error + (string option \<times> rat \<times> sweep_log)" where
  "discover w ifname mac timeout start =
     (case get_if_ip_netmask (w start) ifname of
        Inl e \<Rightarrow> Inl e
      | Inr (host_ip, mask') \<Rightarrow>
          (let subnet =
                 (case (host_ip, mask') of
                    (Some ip, Some m) \<Rightarrow>
                      if ip \<noteq> [] \<and> m \<noteq> []
                      then (case cidr_from_ip_mask ip m of Inl e \<Rightarrow> None | Inr n \<Rightarrow> Some n)
                      else None
                  | _ \<Rightarrow> None);
               mac_lower = lower mac;
               t0 = start;
               next_sweep = start + 1
           in discovery_loop w ifname subnet mac_lower t0 (of_int timeout) next_sweep start []))"

text \<open>The times at which a run fired its sweeps.\<close>

definition sweep_times :: "error + (string option \<times> rat \<times> sweep_log) \<Rightarrow> rat list" where
  "sweep_times r = (case r of Inl e \<Rightarrow> [] | Inr (ip, now, sweeps) \<Rightarrow> map fst sweeps)"

section \<open>Example hosts\<close>

text \<open>A host on which no command can be started.\<close>

definition unavailable :: host where
  "unavailable =
     \<lparr>subprocess_run = (\<lambda>cmd. Inl OSError), popen = (\<lambda>cmd. Some OSError), geteuid = 501\<rparr>"

text \<open>A host whose commands all exit with status \<open>rc\<close>, printing \<open>msg\<close> on standard error only.\<close>

definition failing :: "int \<Rightarrow> string \<Rightarrow> host" where
  "failing rc msg =
     \<lparr>subprocess_run = (\<lambda>cmd. Inr \<lparr>returncode = rc, stdout = [], stderr = msg\<rparr>),
      popen = (\<lambda>cmd. None), geteuid = 501\<rparr>"

text \<open>A host on which only \<open>ipconfig getifaddr\<close> can be started.\<close>

definition half_available :: host where
  "half_available =
     \<lparr>subprocess_run =
        (\<lambda>cmd. if take 2 cmd = [''ipconfig'', ''getifaddr'']
               then Inr \<lparr>returncode = 0, stdout = ''10.0.0.7'' @ [CHR 0x0A], stderr = []\<rparr>
               else Inl OSError),
      popen = (\<lambda>cmd. Some OSError), geteuid = 501\<rparr>"

text \<open>Neighbour cache texts: one entry; two entries, the second in capitals; garbage.\<close>

definition arp_line :: string where
  "arp_line = ''? (10.193.80.66) at 52:54:00:aa:bb:cc on en1 ifscope [ethernet]''"

definition arp_host :: host where
  "arp_host = printing (\<lambda>cmd. arp_line)"

definition arp_text :: string where
  "arp_text =
     ''? (10.193.80.1) at 3c:22:fb:10:20:30 on en1 ifscope [ethernet]'' @ [CHR 0x0A] @
     ''? (10.193.80.105) at 52:54:00:AA:BB:CC on en1 ifscope [ethernet]'' @ [CHR 0x0A] @
     ''? (10.193.80.106) at 52:54:00:aa:bb:cc on en1 ifscope [ethernet]''"

definition arp_text_host :: host where
  "arp_text_host = printing (\<lambda>cmd. arp_text)"

definition garbled :: string where
  "garbled =
     ''arp: cache (incomplete) at at'' @ [CHR 0x0A, CHR 0x0A] @
     ''? (10.193.80) at 52:54:00:aa:bb:cc on en1'' @ [CHR 0x0D, CHR 0x0A] @
     ''? (10.193.80.7) at 52:54:0:aa:bb:cc on en1''"

definition garbled_host :: host where
  "garbled_host = printing (\<lambda>cmd. garbled)"

text \<open>
  A host at \<open>10.193.80.64/24\<close> on every interface, with an empty neighbour cache, and its
  network.
\<close>

definition lan_host :: host where
  "lan_host =
     printing (\<lambda>cmd. if take 2 cmd = [''ipconfig'', ''getifaddr''] then ''10.193.80.64''
                     else if take 2 cmd = [''ipconfig'', ''getoption''] then ''255.255.255.0''
                     else [])"

definition lan :: ipv4network where
  "lan = \<lparr>network_address = 180441088, prefixlen = 24\<rparr>"

text \<open>Another network, \<open>192.168.1.0/24\<close>, of which that host is not a member.\<close>

definition other_lan :: ipv4network where
  "other_lan = \<lparr>network_address = 3232235776, prefixlen = 24\<rparr>"

section \<open>Properties of \<open>gen_mac\<close>\<close>

lemma hexdigit_in: "d < 16 \<Longrightarrow> hexdigit d \<in> set ''0123456789abcdef''"
  unfolding hexdigit_def by (rule nth_mem) simp

lemma hex_table: "list_all (\<lambda>d. hexval_char (hexdigit d) = d \<and> hexdigit d \<noteq> CHR '':'') [0..<16]"
  by code_simp

lemma hexval_hexdigit: "d < 16 \<Longrightarrow> hexval_char (hexdigit d) = d"
  using hex_table by (simp add: list_all_iff)

lemma hexdigit_not_colon: "d < 16 \<Longrightarrow> hexdigit d \<noteq> CHR '':''"
  using hex_table by (simp add: list_all_iff)

lemma hexdigit_0: "hexdigit 0 = CHR ''0''"
  by (simp add: hexdigit_def)

lemma format_02x_byte:
  assumes "0 \<le> b" "b < 256"
  shows "format_02x b = [hexdigit (nat b div 16), hexdigit (nat b mod 16)]"
proof (cases "nat b < 16")
  case True
  then show ?thesis using assms
    by (simp add: format_02x_def zfill_def hexdigit_0 hex_digits.simps)
next
  case False
  moreover have "nat b div 16 < 16" using assms by auto
  ultimately show ?thesis using assms
    by (simp add: format_02x_def zfill_def hex_digits.simps [of "nat b"] hex_digits.simps [of "nat b div 16"])
qed

lemma format_02x_pair:
  assumes "0 \<le> b" "b < 256"
  obtains x y where "format_02x b = [x, y]" "x \<noteq> CHR '':''" "y \<noteq> CHR '':''"
    "x \<in> set ''0123456789abcdef''" "y \<in> set ''0123456789abcdef''"
    "16 * hexval_char x + hexval_char y = nat b"
proof -
  have d: "nat b div 16 < 16" "nat b mod 16 < 16" using assms by auto
  show thesis
  proof (rule that)
    show "format_02x b = [hexdigit (nat b div 16), hexdigit (nat b mod 16)]"
      using assms by (rule format_02x_byte)
    show "hexdigit (nat b div 16) \<noteq> CHR '':''" using d(1) by (rule hexdigit_not_colon)
    show "hexdigit (nat b mod 16) \<noteq> CHR '':''" using d(2) by (rule hexdigit_not_colon)
    show "hexdigit (nat b div 16) \<in> set ''0123456789abcdef''" using d(1) by (rule hexdigit_in)
    show "hexdigit (nat b mod 16) \<in> set ''0123456789abcdef''" using d(2) by (rule hexdigit_in)
    show "16 * hexval_char (hexdigit (nat b div 16)) + hexval_char (hexdigit (nat b mod 16)) = nat b"
      by (simp only: hexval_hexdigit [OF d(1)] hexval_hexdigit [OF d(2)]) simp
  qed
qed

lemma format_consts: "format_02x 0x52 = ''52''" "format_02x 0x54 = ''54''" "format_02x 0x00 = ''00''"
  by (simp_all add: format_02x_byte hexdigit_def)

lemma gen_mac_eq: "fst (gen_mac g lo) = mac_of (octets_of g lo)"
  by (cases lo) (simp_all add: gen_mac_def randint_def mac_of_def octets_of_def format_consts)

lemma and_255_range: "0 \<le> (l::int) AND 255 \<and> l AND 255 < 256"
proof -
  have "l AND 255 \<le> 255" by (rule AND_upper2) simp
  then show ?thesis by simp
qed

lemma and_255_id: "0 \<le> (v::int) \<Longrightarrow> v \<le> 255 \<Longrightarrow> v AND 255 = v"
proof -
  assume a: "0 \<le> v" "v \<le> 255"
  have "take_bit 8 v = v" using a by (simp add: take_bit_int_eq_self)
  moreover have "mask 8 = (255::int)" by (simp add: mask_eq_exp_minus_1)
  ultimately show ?thesis by (simp add: take_bit_eq_mask)
qed

lemma octets_of_range:
  "octets_of g lo = (a, b, c) \<Longrightarrow> 0 \<le> a \<and> a < 128 \<and> 0 \<le> b \<and> b < 256 \<and> 0 \<le> c \<and> c < 256"
  using and_255_range by (auto simp: octets_of_def split: option.splits)

lemma mac_of_fields:
  assumes "0 \<le> a" "a < 256" "0 \<le> b" "b < 256" "0 \<le> c" "c < 256"
  shows "mac_fields (mac_of (a, b, c)) = [''52'', ''54'', ''00'', format_02x a, format_02x b, format_02x c]"
proof -
  obtain a1 a2 where a: "format_02x a = [a1, a2]" "a1 \<noteq> CHR '':''" "a2 \<noteq> CHR '':''"
    using assms(1,2) by (rule format_02x_pair)
  obtain b1 b2 where b: "format_02x b = [b1, b2]" "b1 \<noteq> CHR '':''" "b2 \<noteq> CHR '':''"
    using assms(3,4) by (rule format_02x_pair)
  obtain c1 c2 where c: "format_02x c = [c1, c2]" "c1 \<noteq> CHR '':''" "c2 \<noteq> CHR '':''"
    using assms(5,6) by (rule format_02x_pair)
  show ?thesis
    by (simp add: mac_fields_def mac_of_def a b c)
qed

lemma is_hex_pair_format: "0 \<le> b \<Longrightarrow> b < 256 \<Longrightarrow> is_hex_pair (format_02x b)"
  by (erule (1) format_02x_pair) (simp add: is_hex_pair_def del: set_simps)

lemma hexval_format:
  assumes "0 \<le> b" "b < 256"
  shows "int (hexval (format_02x b)) = b"
proof -
  obtain x y where "format_02x b = [x, y]" "16 * hexval_char x + hexval_char y = nat b"
    using assms by (rule format_02x_pair)
  then show ?thesis using assms by (simp add: hexval_def)
qed

text \<open>
  Claim C6. Whatever the state of the random source and whatever the optional last-octet
  argument, \<open>gen_mac\<close> returns six two-digit lowercase hexadecimal fields joined by
  colons (17 characters), the first three being \<open>52:54:00\<close>; and when a last octet in
  \<open>0..255\<close> is supplied, the sixth field is that value.
\<close>

theorem gen_mac_format:
  "let mac = fst (gen_mac g last_octet); fs = mac_fields mac in
     length fs = 6 \<and> list_all is_hex_pair fs \<and> join '':'' fs = mac \<and> length mac = 17 \<and>
     take 3 fs = [''52'', ''54'', ''00''] \<and> take 8 mac = ''52:54:00'' \<and>
     (\<forall>v. last_octet = Some v \<and> 0 \<le> v \<and> v \<le> 255 \<longrightarrow> int (hexval (fs ! 5)) = v)"
proof -
  obtain a b c where o: "octets_of g last_octet = (a, b, c)"
    by (cases "octets_of g last_octet") auto
  from octets_of_range [OF o]
  have r: "0 \<le> a" "a < 256" "0 \<le> b" "b < 256" "0 \<le> c" "c < 256" by auto
  have fs: "mac_fields (mac_of (a, b, c)) = [''52'', ''54'', ''00'', format_02x a, format_02x b, format_02x c]"
    using r by (rule mac_of_fields)
  have hp: "is_hex_pair (format_02x a)" "is_hex_pair (format_02x b)" "is_hex_pair (format_02x c)"
    using r by (simp_all add: is_hex_pair_format)
  have hp0: "is_hex_pair ''52''" "is_hex_pair ''54''" "is_hex_pair ''00''"
    by (simp_all add: is_hex_pair_def)
  have len: "length (mac_of (a, b, c)) = 17"
    using r by (simp add: mac_of_def format_02x_byte)
  have jn: "join '':'' [''52'', ''54'', ''00'', format_02x a, format_02x b, format_02x c] = mac_of (a, b, c)"
    by (simp add: mac_of_def)
  have pre: "take 8 (mac_of (a, b, c)) = ''52:54:00''"
    by (simp add: mac_of_def)
  have pin: "int (hexval (format_02x c)) = v" if "last_octet = Some v" "0 \<le> v" "v \<le> 255" for v
  proof -
    have "c = v AND 255" using o that by (simp add: octets_of_def)
    also have "\<dots> = v" using that by (simp add: and_255_id)
    finally show ?thesis using that by (simp add: hexval_format)
  qed
  show ?thesis
    unfolding Let_def gen_mac_eq o fs
    using hp hp0 len pin pre by (simp add: jn del: join.simps)
qed

theorem gen_mac_format_witness:
  "fst (gen_mac (\<lambda>i. 300 + i) (Some 7)) = ''52:54:00:2c:2d:07'' \<and>
   int (hexval (mac_fields (fst (gen_mac (\<lambda>i. 300 + i) (Some 7))) ! 5)) = 7"
  using gen_mac_format [of "\<lambda>i. 300 + i" "Some 7"]
  by (simp add: Let_def gen_mac_def randint_def format_02x_byte hexdigit_def)

lemma mac_of_inj:
  assumes "0 \<le> a" "a < 256" "0 \<le> b" "b < 256" "0 \<le> c" "c < 256"
    and "0 \<le> a'" "a' < 256" "0 \<le> b'" "b' < 256" "0 \<le> c'" "c' < 256"
    and "mac_of (a, b, c) = mac_of (a', b', c')"
  shows "a = a' \<and> b = b' \<and> c = c'"
proof -
  have "mac_fields (mac_of (a, b, c)) = mac_fields (mac_of (a', b', c'))"
    using assms(13) by simp
  then have f: "format_02x a = format_02x a'" "format_02x b = format_02x b'"
    "format_02x c = format_02x c'"
    by (simp_all add: mac_of_fields assms(1-12))
  have "a = int (hexval (format_02x a))" using assms(1,2) by (simp add: hexval_format)
  also have "\<dots> = a'" unfolding f(1) using assms(7,8) by (simp add: hexval_format)
  finally have 1: "a = a'" .
  have "b = int (hexval (format_02x b))" using assms(3,4) by (simp add: hexval_format)
  also have "\<dots> = b'" unfolding f(2) using assms(9,10) by (simp add: hexval_format)
  finally have 2: "b = b'" .
  have "c = int (hexval (format_02x c))" using assms(5,6) by (simp add: hexval_format)
  also have "\<dots> = c'" unfolding f(3) using assms(11,12) by (simp add: hexval_format)
  finally have 3: "c = c'" .
  from 1 2 3 show ?thesis by simp
qed

lemma mac_of_inj_on: "inj_on mac_of ({0..<128} \<times> {0..<256} \<times> {0..<256})"
proof (rule inj_onI)
  fix x y :: "int \<times> int \<times> int"
  assume x: "x \<in> {0..<128} \<times> {0..<256} \<times> {0..<256}"
    and y: "y \<in> {0..<128} \<times> {0..<256} \<times> {0..<256}"
    and e: "mac_of x = mac_of y"
  obtain a b c where xe: "x = (a, b, c)" by (cases x) auto
  obtain a' b' c' where ye: "y = (a', b', c')" by (cases y) auto
  have "a = a' \<and> b = b' \<and> c = c'"
    using x y e unfolding xe ye by (intro mac_of_inj) auto
  then show "x = y" by (simp add: xe ye)
qed

lemma octets_of_onto:
  assumes "(a, b, c) \<in> {0..<128} \<times> {0..<256} \<times> {0..<256}"
  shows "octets_of (\<lambda>i. if i = 0 then nat a else if i = Suc 0 then nat b else nat c) None = (a, b, c)"
  using assms by (simp add: octets_of_def)

lemma gen_mac_range:
  "range (\<lambda>(g, lo). fst (gen_mac g lo)) = mac_of ` ({0..<128} \<times> {0..<256} \<times> {0..<256})"
proof (intro equalityI subsetI)
  fix m assume "m \<in> range (\<lambda>(g, lo). fst (gen_mac g lo))"
  then obtain g lo where m: "m = mac_of (octets_of g lo)" by (auto simp: gen_mac_eq)
  obtain a b c where o: "octets_of g lo = (a, b, c)"
    by (cases "octets_of g lo") auto
  from octets_of_range [OF o] have "(a, b, c) \<in> {0..<128} \<times> {0..<256} \<times> {0..<256}" by simp
  then show "m \<in> mac_of ` ({0..<128} \<times> {0..<256} \<times> {0..<256})"
    unfolding m o by (rule imageI)
next
  fix m assume "m \<in> mac_of ` ({0..<128} \<times> {0..<256} \<times> {0..<256})"
  then obtain a b c where t: "(a, b, c) \<in> {0..<128} \<times> {0..<256} \<times> {0..<256}"
    and m: "m = mac_of (a, b, c)" by auto
  define g :: rng where "g = (\<lambda>i. if i = 0 then nat a else if i = Suc 0 then nat b else nat c)"
  have "fst (gen_mac g None) = m"
    unfolding gen_mac_eq m g_def by (simp only: octets_of_onto [OF t])
  then have "m = (\<lambda>(g, lo). fst (gen_mac g lo)) (g, None)" by simp
  then show "m \<in> range (\<lambda>(g, lo). fst (gen_mac g lo))" by (rule range_eqI)
qed

text \<open>
  Claim C10. The fourth octet of a generated address, the first one drawn from the random
  source, never exceeds \<open>0x7f\<close>. So only 23 of the 24 drawn bits vary: over every state
  of the random source and every last-octet argument, \<open>gen_mac\<close> returns exactly \<open>2 ^ 23\<close>
  different addresses, half of the \<open>2 ^ 24\<close> that three free octets would give.
\<close>

theorem gen_mac_fourth_octet:
  "hexval (mac_fields (fst (gen_mac g last_octet)) ! 3) \<le> 0x7f \<and>
   finite (range (\<lambda>(g, lo). fst (gen_mac g lo))) \<and>
   card (range (\<lambda>(g, lo). fst (gen_mac g lo))) = 2 ^ 23 \<and>
   2 * card (range (\<lambda>(g, lo). fst (gen_mac g lo))) = 2 ^ 24"
proof -
  obtain a b c where o: "octets_of g last_octet = (a, b, c)"
    by (cases "octets_of g last_octet") auto
  from octets_of_range [OF o]
  have r: "0 \<le> a" "a < 256" "0 \<le> b" "b < 256" "0 \<le> c" "c < 256" and a: "a < 128" by auto
  have fs: "mac_fields (mac_of (a, b, c)) = [''52'', ''54'', ''00'', format_02x a, format_02x b, format_02x c]"
    using r by (rule mac_of_fields)
  have "int (hexval (format_02x a)) = a" using r by (simp add: hexval_format)
  then have 1: "hexval (mac_fields (fst (gen_mac g last_octet)) ! 3) \<le> 0x7f"
    unfolding gen_mac_eq o fs using a by simp
  let ?S = "{0..<128} \<times> {0..<256} \<times> {0..<256} :: (int \<times> int \<times> int) set"
  have fin: "finite (range (\<lambda>(g, lo). fst (gen_mac g lo)))"
    unfolding gen_mac_range by simp
  have "card (range (\<lambda>(g, lo). fst (gen_mac g lo))) = card ?S"
    unfolding gen_mac_range by (rule card_image) (rule mac_of_inj_on)
  also have "card ?S = 2 ^ 23" by (simp add: card_cartesian_product)
  finally have 2: "card (range (\<lambda>(g, lo). fst (gen_mac g lo))) = 2 ^ 23" .
  from 1 2 fin show ?thesis by simp
qed

theorem gen_mac_fourth_octet_witness:
  "hexval (mac_fields (fst (gen_mac (\<lambda>i. 255) None)) ! 3) = 0x7f"
  using gen_mac_fourth_octet [of "\<lambda>i. 255" None]
  by (simp add: gen_mac_def randint_def format_02x_byte hexdigit_def mac_fields_def
      hexval_def hexval_char_def)

text \<open>
  Claim C7. Seeding the random source with the guest name and then generating gives the
  same address in every run: the result does not depend on the state the generator had
  before it was seeded, only on the name.
\<close>

theorem main_mac_deterministic:
  "main_mac derive name g1 = main_mac derive name g2 \<and>
   main_mac derive name g1 = fst (gen_mac (derive name) None)"
  by (simp add: main_mac_def random_seed_def)

theorem main_mac_deterministic_witness:
  "main_mac (\<lambda>name i. length name + i) ''sC'' (\<lambda>i. 0) = ''52:54:00:02:03:04'' \<and>
   main_mac (\<lambda>name i. length name + i) ''sC'' (\<lambda>i. 99) = ''52:54:00:02:03:04''"
  using main_mac_deterministic [of "\<lambda>name i. length name + i" "''sC''" "\<lambda>i. 0" "\<lambda>i. 99"]
  by (simp add: main_mac_def random_seed_def gen_mac_def randint_def format_02x_byte
      hexdigit_def)

section \<open>Properties of the host queries\<close>

lemma strip_strip: "strip (strip s) = strip s"
proof -
  define t where "t = dropWhile isspace s"
  define u where "u = dropWhile isspace (rev t)"
  have "dropWhile isspace (rev u) = rev u"
  proof (cases "u = []")
    case True
    then show ?thesis by simp
  next
    case False
    then have "t \<noteq> []" by (auto simp: u_def)
    then have h: "\<not> isspace (hd t)" unfolding t_def by (simp add: hd_dropWhile)
    have "rev t = takeWhile isspace (rev t) @ u"
      unfolding u_def by simp
    then have "t = rev u @ rev (takeWhile isspace (rev t))"
      by (metis rev_append rev_rev_ident)
    with False have "hd (rev u) = hd t" by (metis hd_append2 rev_is_Nil_conv)
    with h False show ?thesis by (cases "rev u") auto
  qed
  moreover have "dropWhile isspace u = u"
    unfolding u_def by (rule dropWhile_idem)
  ultimately show ?thesis by (simp add: strip_def t_def [symmetric] u_def [symmetric])
qed

lemma run_nocheck:
  "run h cmd False False = (case subprocess_run h cmd of Inl e \<Rightarrow> Inl e | Inr r \<Rightarrow> Inr (strip (stdout r)))"
  by (simp add: run_def split: sum.splits)

text \<open>
  Claim C3, as the code has it. Whenever both \<open>ipconfig\<close> invocations can be started,
  \<open>get_if_ip_netmask\<close> does not raise, whatever their exit status: each field is \<open>None\<close>
  when its query printed nothing but white space on standard output (what a failing query
  does) and the stripped output otherwise. When \<open>ipconfig\<close> cannot be started, the
  exception of \<open>subprocess.run\<close> reaches the caller.
\<close>

theorem get_if_ip_netmask_result:
  "(\<forall>r1 r2. subprocess_run h [''ipconfig'', ''getifaddr'', ifname] = Inr r1 \<and>
            subprocess_run h [''ipconfig'', ''getoption'', ifname, ''subnet_mask''] = Inr r2 \<longrightarrow>
      get_if_ip_netmask h ifname =
        Inr (if strip (stdout r1) = [] then None else Some (strip (stdout r1)),
             if strip (stdout r2) = [] then None else Some (strip (stdout r2)))) \<and>
   (\<forall>e. subprocess_run h [''ipconfig'', ''getifaddr'', ifname] = Inl e \<longrightarrow>
      get_if_ip_netmask h ifname = Inl e) \<and>
   (\<forall>r1 e. subprocess_run h [''ipconfig'', ''getifaddr'', ifname] = Inr r1 \<and>
      subprocess_run h [''ipconfig'', ''getoption'', ifname, ''subnet_mask''] = Inl e \<longrightarrow>
      get_if_ip_netmask h ifname = Inl e)"
  by (simp add: get_if_ip_netmask_def run_nocheck strip_strip or_None_def)

theorem get_if_ip_netmask_result_witness:
  "get_if_ip_netmask (failing 1 ''interface en7 is down'') ''en7'' = Inr (None, None) \<and>
   get_if_ip_netmask lan_host ''en7'' = Inr (Some ''10.193.80.64'', Some ''255.255.255.0'') \<and>
   get_if_ip_netmask unavailable ''en7'' = Inl OSError \<and>
   get_if_ip_netmask half_available ''en7'' = Inl OSError"
  using get_if_ip_netmask_result [of "failing 1 ''interface en7 is down''" "''en7''"]
    get_if_ip_netmask_result [of lan_host "''en7''"]
    get_if_ip_netmask_result [of unavailable "''en7''"]
    get_if_ip_netmask_result [of half_available "''en7''"]
  by (simp add: failing_def lan_host_def printing_def unavailable_def half_available_def
      strip_def isspace_def)

text \<open>
  The claim as stated fails where the query tool is not available: the call raises.
\<close>

theorem get_if_ip_netmask_raises:
  "get_if_ip_netmask unavailable ''en1'' = Inl OSError"
  by (simp add: get_if_ip_netmask_def run_def unavailable_def)

section \<open>Properties of the neighbour cache lookup\<close>

lemma scan_lines_find:
  "scan_lines ls (lower target) = first_ip_with_mac (List.map_filter arp_entry ls) target"
  by (induction ls) (auto simp: first_ip_with_mac_def map_filter_simps mac_eq_ci_def split: option.splits)

lemma arp_text_stripped: "strip arp_text = arp_text"
  by code_simp

lemma arp_text_first:
  "first_ip_with_mac (cache_entries arp_text) ''52:54:00:Aa:Bb:cC'' = Some ''10.193.80.105''"
  by code_simp

text \<open>
  Claim C1, as the code has it. The lookup compares the lowered MAC of each line with its
  argument as given, so it is the caller that lowers the target (\<open>mac.lower()\<close> in \<open>main\<close>).
  For a target lowered by the caller, the lookup returns the address of the first cache
  line whose MAC equals the target without regard to case, and \<open>None\<close> when there is no
  such line.
\<close>

theorem arp_lookup_by_mac_first_match:
  assumes "subprocess_run h [''arp'', ''-an''] = Inr r"
  shows "arp_lookup_by_mac h (lower target) =
           Inr (first_ip_with_mac (cache_entries (strip (stdout r))) target)"
  using assms by (simp add: arp_lookup_by_mac_def run_nocheck cache_entries_def scan_lines_find)

theorem arp_lookup_by_mac_first_match_witness:
  "arp_lookup_by_mac arp_text_host (lower ''52:54:00:Aa:Bb:cC'') = Inr (Some ''10.193.80.105'')"
  using arp_lookup_by_mac_first_match
    [of arp_text_host "\<lparr>returncode = 0, stdout = arp_text, stderr = []\<rparr>" "''52:54:00:Aa:Bb:cC''"]
  by (simp add: arp_text_host_def printing_def arp_text_stripped arp_text_first)

text \<open>
  The claim as stated fails for a target in capitals: the entry \<open>52:54:00:aa:bb:cc\<close> is
  in the cache, yet the lookup of \<open>52:54:00:AA:BB:CC\<close> finds nothing.
\<close>

theorem arp_lookup_by_mac_capitals:
  "arp_lookup_by_mac arp_host ''52:54:00:AA:BB:CC'' = Inr None \<and>
   first_ip_with_mac (cache_entries arp_line) ''52:54:00:AA:BB:CC'' = Some ''10.193.80.66''"
  by code_simp

lemma scan_lines_skip:
  "arp_entry l = None \<Longrightarrow> scan_lines (ls1 @ l # ls2) t = scan_lines (ls1 @ ls2) t"
  by (induction ls1) (auto split: option.splits)

lemma scan_lines_None:
  "list_all (\<lambda>l. case arp_entry l of None \<Rightarrow> True | Some (ip, mac) \<Rightarrow> lower mac \<noteq> t) ls \<Longrightarrow>
     scan_lines ls t = None"
  by (induction ls) (auto split: option.splits)

lemma garbled_stripped: "strip garbled = garbled"
  by code_simp

lemma garbled_lines: "list_all (\<lambda>l. arp_entry l = None) (splitlines garbled)"
  by code_simp

lemma incomplete_entry: "arp_entry ''? (10.193.80.9) at (incomplete) on en1 ifscope [ethernet]'' = None"
  by code_simp

lemma scan_arp_line: "scan_lines [arp_line] ''52:54:00:aa:bb:cc'' = Some ''10.193.80.66''"
  by code_simp

text \<open>
  Claim C8. Whatever text \<open>arp -an\<close> printed, the lookup returns a value and does not
  raise; a line that does not parse as a cache entry contributes nothing; and when no
  line carries the target MAC, in particular for the empty text, the result is \<open>None\<close>.
\<close>

theorem arp_lookup_by_mac_total:
  assumes "subprocess_run h [''arp'', ''-an''] = Inr r"
  shows "(\<exists>res. arp_lookup_by_mac h mac_lower = Inr res) \<and>
         (list_all (\<lambda>l. case arp_entry l of None \<Rightarrow> True | Some (ip, mac) \<Rightarrow> lower mac \<noteq> mac_lower)
            (splitlines (strip (stdout r))) \<longrightarrow> arp_lookup_by_mac h mac_lower = Inr None) \<and>
         (strip (stdout r) = [] \<longrightarrow> arp_lookup_by_mac h mac_lower = Inr None) \<and>
         (\<forall>l ls1 ls2. arp_entry l = None \<longrightarrow>
            scan_lines (ls1 @ l # ls2) mac_lower = scan_lines (ls1 @ ls2) mac_lower)"
  using assms
  by (auto simp: arp_lookup_by_mac_def run_nocheck scan_lines_None scan_lines_skip)

theorem arp_lookup_by_mac_total_witness:
  "arp_lookup_by_mac garbled_host ''52:54:00:aa:bb:cc'' = Inr None \<and>
   arp_lookup_by_mac lan_host ''52:54:00:aa:bb:cc'' = Inr None \<and>
   scan_lines [''? (10.193.80.9) at (incomplete) on en1 ifscope [ethernet]'', arp_line]
     ''52:54:00:aa:bb:cc'' = Some ''10.193.80.66''"
proof -
  have "list_all (\<lambda>l. case arp_entry l of None \<Rightarrow> True | Some (ip, mac) \<Rightarrow> lower mac \<noteq> ''52:54:00:aa:bb:cc'')
          (splitlines garbled)"
    using garbled_lines by (simp add: list_all_iff)
  then have 1: "arp_lookup_by_mac garbled_host ''52:54:00:aa:bb:cc'' = Inr None"
    using arp_lookup_by_mac_total
      [of garbled_host "\<lparr>returncode = 0, stdout = garbled, stderr = []\<rparr>" "''52:54:00:aa:bb:cc''"]
    by (simp add: garbled_host_def printing_def garbled_stripped)
  note t = arp_lookup_by_mac_total
      [of lan_host "\<lparr>returncode = 0, stdout = [], stderr = []\<rparr>" "''52:54:00:aa:bb:cc''"]
  have 2: "arp_lookup_by_mac lan_host ''52:54:00:aa:bb:cc'' = Inr None"
    using t by (simp add: lan_host_def printing_def strip_def)
  have "scan_lines ([] @ ''? (10.193.80.9) at (incomplete) on en1 ifscope [ethernet]'' # [arp_line])
          ''52:54:00:aa:bb:cc'' = scan_lines ([] @ [arp_line]) ''52:54:00:aa:bb:cc''"
    using t incomplete_entry by (simp add: lan_host_def printing_def strip_def)
  then have 3: "scan_lines [''? (10.193.80.9) at (incomplete) on en1 ifscope [ethernet]'', arp_line]
      ''52:54:00:aa:bb:cc'' = Some ''10.193.80.66''"
    by (simp only: append_Nil scan_arp_line)
  from 1 2 3 show ?thesis by (intro conjI)
qed

section \<open>Properties of \<open>cidr_from_ip_mask\<close>\<close>

lemma split_on_nonempty: "split_on c s \<noteq> []"
  by (induction s) (auto split: list.splits)

lemma split_on_no_sep: "c \<notin> set x \<Longrightarrow> split_on c x = [x]"
  by (induction x) auto

lemma split_on_append: "c \<notin> set x \<Longrightarrow> split_on c (x @ c # rest) = x # split_on c rest"
  by (induction x) (auto simp: split_on_nonempty split: list.splits)

lemma split_on_single: "split_on c s = [x] \<Longrightarrow> c \<notin> set s"
  by (induction s arbitrary: x) (auto simp: split_on_nonempty split: if_splits list.splits)

lemma join_split_on: "join [c] (split_on c s) = s"
proof (induction s)
  case Nil
  then show ?case by simp
next
  case (Cons a s)
  then show ?case
    by (cases "split_on c s"; cases "tl (split_on c s)") (auto simp: split_on_nonempty)
qed

lemma set_join: "set (join sep xs) \<subseteq> set sep \<union> \<Union> (set ` set xs)"
  by (induction sep xs rule: join.induct) auto

lemma split_on_chars: "set s \<subseteq> insert c (\<Union> (set ` set (split_on c s)))"
  using set_join [of "[c]" "split_on c s"] by (simp add: join_split_on)

lemma is_digit_chars: "is_digit c \<Longrightarrow> c \<noteq> CHR ''/'' \<and> c \<noteq> CHR ''.''"
  by (auto simp: is_digit_def)

lemma digits_nonneg: "list_all is_digit s \<Longrightarrow> 0 \<le> acc \<Longrightarrow>
    0 \<le> foldl (\<lambda>a c. 10 * a + (of_char c - 48)) (acc :: int) s"
proof (induction s arbitrary: acc)
  case Nil
  then show ?case by simp
next
  case (Cons c s)
  from Cons.prems have "(48 :: nat) \<le> of_char c"
    by (simp add: is_digit_def)
  then have "int 48 \<le> int (of_char c)" by (simp only: of_nat_le_iff)
  then have "(48 :: int) \<le> of_char c" by (simp add: of_nat_of_char)
  with Cons.prems have "0 \<le> 10 * acc + (of_char c - 48)" by simp
  with Cons show ?case by simp
qed

lemma int_of_digits_nonneg: "list_all is_digit s \<Longrightarrow> 0 \<le> int_of_digits s"
  by (simp add: int_of_digits_def digits_nonneg)

lemma parse_octet_digits: "parse_octet s = Some v \<Longrightarrow> list_all is_digit s \<and> 0 \<le> v \<and> v \<le> 255"
  by (auto simp: parse_octet_def int_of_digits_nonneg split: if_splits)

lemma parse_octet_chars: "parse_octet s = Some v \<Longrightarrow> CHR ''/'' \<notin> set s \<and> CHR ''.'' \<notin> set s"
  using parse_octet_digits [of s v] is_digit_chars by (auto simp: list_all_iff)

lemma ip_int_from_stringE:
  assumes "ip_int_from_string ip = Inr a"
  obtains o1 o2 o3 o4 v1 v2 v3 v4 where
    "split_on CHR ''.'' ip = [o1, o2, o3, o4]"
    "parse_octet o1 = Some v1" "parse_octet o2 = Some v2"
    "parse_octet o3 = Some v3" "parse_octet o4 = Some v4"
    "a = ((v1 * 256 + v2) * 256 + v3) * 256 + v4"
proof -
  from assms have len: "length (split_on CHR ''.'' ip) = 4"
    by (auto simp: ip_int_from_string_def Let_def split: if_splits)
  then obtain o1 o2 o3 o4 where sp: "split_on CHR ''.'' ip = [o1, o2, o3, o4]"
    by (auto simp: length_Suc_conv numeral_eq_Suc)
  from assms sp obtain bs where bs: "those (map parse_octet [o1, o2, o3, o4]) = Some bs"
    "a = from_bytes_big bs"
    by (auto simp: ip_int_from_string_def Let_def split: if_splits option.splits)
  from bs(1) obtain v1 v2 v3 v4 where v: "parse_octet o1 = Some v1" "parse_octet o2 = Some v2"
    "parse_octet o3 = Some v3" "parse_octet o4 = Some v4" "bs = [v1, v2, v3, v4]"
    by (auto split: option.splits)
  show thesis
    by (rule that [OF sp v(1-4)]) (simp add: bs(2) v(5) from_bytes_big_def)
qed

lemma ip_int_from_string_no_slash:
  assumes "ip_int_from_string ip = Inr a"
  shows "CHR ''/'' \<notin> set ip"
proof -
  from assms obtain o1 o2 o3 o4 v1 v2 v3 v4 where
    sp: "split_on CHR ''.'' ip = [o1, o2, o3, o4]" and
    v: "parse_octet o1 = Some v1" "parse_octet o2 = Some v2"
       "parse_octet o3 = Some v3" "parse_octet o4 = Some v4"
    by (rule ip_int_from_stringE)
  have "set ip \<subseteq> insert CHR ''.'' (set o1 \<union> set o2 \<union> set o3 \<union> set o4)"
    using split_on_chars [of ip "CHR ''.''"] by (auto simp: sp)
  then show ?thesis using v [THEN parse_octet_chars] by auto
qed

lemma ip_int_from_string_bound:
  assumes "ip_int_from_string ip = Inr a"
  shows "0 \<le> a \<and> a < 2 ^ 32"
proof -
  from assms obtain o1 o2 o3 o4 v1 v2 v3 v4 where
    v: "parse_octet o1 = Some v1" "parse_octet o2 = Some v2"
       "parse_octet o3 = Some v3" "parse_octet o4 = Some v4" and
    a: "a = ((v1 * 256 + v2) * 256 + v3) * 256 + v4"
    by (rule ip_int_from_stringE)
  from v [THEN parse_octet_digits] have "v1 \<le> 255" "v2 \<le> 255" "v3 \<le> 255" "v4 \<le> 255"
    "0 \<le> v1" "0 \<le> v2" "0 \<le> v3" "0 \<le> v4" by auto
  then show ?thesis unfolding a by simp
qed

lemma ALL_ONES_mask: "ALL_ONES = mask 32"
  by (simp add: ALL_ONES_def mask_eq_exp_minus_1)

lemma ip_int_from_prefix_mask: "ip_int_from_prefix p = mask 32 XOR mask (32 - p)"
  by (simp add: ip_int_from_prefix_def ALL_ONES_mask drop_bit_mask_eq)

lemma and_prefix:
  assumes "0 \<le> a" "a < 2 ^ 32"
  shows "a AND ip_int_from_prefix p = a - a mod 2 ^ (32 - p)"
proof -
  have t: "take_bit 32 a = a" using assms by (simp add: take_bit_int_eq_self)
  have "take_bit 32 a AND (mask 32 XOR mask (32 - p)) =
          push_bit (32 - p) (drop_bit (32 - p) (take_bit 32 a))"
    by (rule bit_eqI) (auto simp: bit_simps)
  then have "a AND ip_int_from_prefix p = push_bit (32 - p) (drop_bit (32 - p) a)"
    by (simp add: t ip_int_from_prefix_mask)
  also have "\<dots> = a - a mod 2 ^ (32 - p)"
    by (simp add: push_bit_eq_mult drop_bit_eq_div minus_mod_eq_mult_div)
  finally show ?thesis .
qed

lemma prefix_from_ip_int_le: "prefix_from_ip_int n = Some p \<Longrightarrow> p \<le> 32"
  by (auto simp: prefix_from_ip_int_def Let_def split: if_splits)

lemma prefix_from_prefix_string_le: "prefix_from_prefix_string s = Inr p \<Longrightarrow> p \<le> 32 \<and> list_all is_digit s"
  by (auto simp: prefix_from_prefix_string_def split: if_splits)

lemma make_netmask_le: "make_netmask m = Inr p \<Longrightarrow> p \<le> 32"
  by (auto simp: make_netmask_def prefix_from_ip_string_def
      dest: prefix_from_ip_int_le prefix_from_prefix_string_le split: sum.splits option.splits)

lemma make_netmask_no_slash: "make_netmask m = Inr p \<Longrightarrow> CHR ''/'' \<notin> set m"
proof (cases "prefix_from_prefix_string m")
  case (Inr q)
  then have "list_all is_digit m" by (auto dest: prefix_from_prefix_string_le)
  then show ?thesis using is_digit_chars by (auto simp: list_all_iff)
next
  case (Inl e)
  assume "make_netmask m = Inr p"
  with Inl obtain n where "ip_int_from_string m = Inr n"
    by (auto simp: make_netmask_def prefix_from_ip_string_def split: sum.splits)
  then show ?thesis by (rule ip_int_from_string_no_slash)
qed

lemma make_netmask_24: "make_netmask ''24'' = Inr 24"
  by code_simp

lemma parse_octet_0: "parse_octet ''0'' = Some 0"
  by code_simp

lemma IPv4Address_no_slash: "IPv4Address ip = Inr a \<Longrightarrow> CHR ''/'' \<notin> set ip \<and> ip_int_from_string ip = Inr a"
  by (auto simp: IPv4Address_def split: if_splits)

lemma IPv4Address_bound: "IPv4Address ip = Inr a \<Longrightarrow> 0 \<le> a \<and> a < 2 ^ 32"
  using IPv4Address_no_slash ip_int_from_string_bound by blast

lemma IPv4Network_pair:
  assumes "CHR ''/'' \<notin> set ip" "CHR ''/'' \<notin> set m"
  shows "IPv4Network (ip @ CHR ''/'' # m) =
           (case IPv4Address ip of
              Inl e \<Rightarrow> Inl e
            | Inr packed \<Rightarrow>
                (case make_netmask m of
                   Inl e \<Rightarrow> Inl e
                 | Inr p \<Rightarrow> Inr \<lparr>network_address = packed AND ip_int_from_prefix p, prefixlen = p\<rparr>))"
proof -
  have "split_on CHR ''/'' (ip @ CHR ''/'' # m) = [ip, m]"
    using assms by (simp add: split_on_append split_on_no_sep)
  then show ?thesis by (simp add: IPv4Network_def Let_def split: sum.splits)
qed

lemma IPv4Network_many:
  assumes "CHR ''/'' \<notin> set ip" "CHR ''/'' \<in> set m"
  shows "IPv4Network (ip @ CHR ''/'' # m) = Inl AddressValueError"
proof -
  have sp: "split_on CHR ''/'' (ip @ CHR ''/'' # m) = ip # split_on CHR ''/'' m"
    using assms by (simp add: split_on_append)
  have "length (split_on CHR ''/'' m) \<ge> 2"
  proof (cases "split_on CHR ''/'' m")
    case Nil
    then show ?thesis by (simp add: split_on_nonempty)
  next
    case (Cons x xs)
    show ?thesis
    proof (cases xs)
      case Nil
      with Cons have "CHR ''/'' \<notin> set m" by (simp add: split_on_single)
      with assms show ?thesis by simp
    next
      case (Cons y ys)
      with \<open>split_on CHR ''/'' m = x # xs\<close> show ?thesis by simp
    qed
  qed
  then have "length (split_on CHR ''/'' (ip @ CHR ''/'' # m)) > 2" unfolding sp by simp
  then show ?thesis by (simp add: IPv4Network_def Let_def)
qed

lemma fallback_network:
  assumes "IPv4Address ip = Inr a"
  shows "IPv4Network (join ''.'' (take 3 (split_on CHR ''.'' ip) @ [''0'']) @ ''/24'') =
           Inr \<lparr>network_address = a - a mod 256, prefixlen = 24\<rparr>"
proof -
  from assms have ip: "ip_int_from_string ip = Inr a" by (simp add: IPv4Address_no_slash)
  then obtain o1 o2 o3 o4 v1 v2 v3 v4 where
    sp: "split_on CHR ''.'' ip = [o1, o2, o3, o4]" and
    v: "parse_octet o1 = Some v1" "parse_octet o2 = Some v2"
       "parse_octet o3 = Some v3" "parse_octet o4 = Some v4" and
    a: "a = ((v1 * 256 + v2) * 256 + v3) * 256 + v4"
    by (rule ip_int_from_stringE)
  from v [THEN parse_octet_chars]
  have c: "CHR ''/'' \<notin> set o1" "CHR ''.'' \<notin> set o1" "CHR ''/'' \<notin> set o2" "CHR ''.'' \<notin> set o2"
    "CHR ''/'' \<notin> set o3" "CHR ''.'' \<notin> set o3" by auto
  from v [THEN parse_octet_digits] have b: "v1 \<le> 255" "v2 \<le> 255" "v3 \<le> 255" "v4 \<le> 255"
    "0 \<le> v1" "0 \<le> v2" "0 \<le> v3" "0 \<le> v4" by auto
  define base where "base = o1 @ ''.'' @ o2 @ ''.'' @ o3 @ ''.0''"
  define a' where "a' = ((v1 * 256 + v2) * 256 + v3) * 256"
  have net: "join ''.'' (take 3 (split_on CHR ''.'' ip) @ [''0'']) @ ''/24'' = base @ ''/'' @ ''24''"
    by (simp add: sp base_def)
  have ns: "CHR ''/'' \<notin> set base" using c by (simp add: base_def)
  have "split_on CHR ''.'' base = [o1, o2, o3, ''0'']"
    using c by (simp add: base_def split_on_append)
  then have "ip_int_from_string base = Inr a'"
    by (simp add: ip_int_from_string_def v parse_octet_0 from_bytes_big_def base_def a'_def)
  then have addr: "IPv4Address base = Inr a'" using ns by (simp add: IPv4Address_def)
  have "0 \<le> a'" "a' < 2 ^ 32" using b by (simp_all add: a'_def)
  then have "a' AND ip_int_from_prefix 24 = a' - a' mod 2 ^ (32 - 24)" by (rule and_prefix)
  also have "\<dots> = a'" by (simp add: a'_def)
  finally have m: "a' AND ip_int_from_prefix 24 = a'" .
  have "a = v4 + 256 * ((v1 * 256 + v2) * 256 + v3)" by (simp add: a)
  then have "a mod 256 = v4 mod 256" by (simp only: mod_mult_self2)
  then have "a mod 256 = v4" using b by simp
  then have "a - a mod 256 = a'" by (simp add: a a'_def)
  then show ?thesis
    unfolding net by (simp add: IPv4Network_pair ns addr make_netmask_24 m)
qed

lemma host_address: "IPv4Address ''10.193.80.64'' = Inr 180441152"
  by code_simp

lemma mask_16: "make_netmask ''255.255.0.0'' = Inr 16"
  by code_simp

lemma mask_bad: "make_netmask ''255.0.255.0'' = Inl NetmaskValueError"
  by code_simp

text \<open>
  Claim C4. For a host address string that is an IPv4 address and any mask string: if the
  mask parses (as a prefix length, a netmask or a host mask), \<open>cidr_from_ip_mask\<close> returns
  the network that contains the address, the address with its host bits cleared and the
  prefix length of the mask; if the mask does not parse, for whatever reason, it returns
  the \<open>/24\<close> network of the first three octets of the address, the fourth being 0.
\<close>

theorem cidr_from_ip_mask_result:
  assumes "IPv4Address ip = Inr a"
  shows "(\<forall>p. make_netmask mask' = Inr p \<longrightarrow>
            IPv4Network (ip @ ''/'' @ mask') =
              Inr \<lparr>network_address = a - a mod 2 ^ (32 - p), prefixlen = p\<rparr> \<and>
            cidr_from_ip_mask ip mask' =
              Inr \<lparr>network_address = a - a mod 2 ^ (32 - p), prefixlen = p\<rparr> \<and>
            p \<le> 32 \<and> a - a mod 2 ^ (32 - p) \<le> a \<and> a < a - a mod 2 ^ (32 - p) + 2 ^ (32 - p)) \<and>
         (\<forall>e. make_netmask mask' = Inl e \<longrightarrow>
            (\<exists>e'. IPv4Network (ip @ ''/'' @ mask') = Inl e') \<and>
            cidr_from_ip_mask ip mask' =
              Inr \<lparr>network_address = a - a mod 256, prefixlen = 24\<rparr> \<and>
            (a - a mod 256) div 256 = a div 256 \<and> (a - a mod 256) mod 256 = 0)"
proof (intro conjI allI impI)
  fix p assume p: "make_netmask mask' = Inr p"
  from assms have ns: "CHR ''/'' \<notin> set ip" and lt: "0 \<le> a" "a < 2 ^ 32"
    by (auto dest: IPv4Address_no_slash IPv4Address_bound)
  from p have nm: "CHR ''/'' \<notin> set mask'" by (rule make_netmask_no_slash)
  show n: "IPv4Network (ip @ ''/'' @ mask') =
      Inr \<lparr>network_address = a - a mod 2 ^ (32 - p), prefixlen = p\<rparr>"
    by (simp add: IPv4Network_pair [OF ns nm] assms p and_prefix [OF lt])
  show "cidr_from_ip_mask ip mask' =
      Inr \<lparr>network_address = a - a mod 2 ^ (32 - p), prefixlen = p\<rparr>"
    using n by (simp add: cidr_from_ip_mask_def)
  show "p \<le> 32" using p by (rule make_netmask_le)
  have "0 \<le> a mod 2 ^ (32 - p)" "a mod 2 ^ (32 - p) < 2 ^ (32 - p)" by simp_all
  then show "a - a mod 2 ^ (32 - p) \<le> a" "a < a - a mod 2 ^ (32 - p) + 2 ^ (32 - p)"
    by linarith+
next
  fix e assume e: "make_netmask mask' = Inl e"
  from assms have ns: "CHR ''/'' \<notin> set ip" by (auto dest: IPv4Address_no_slash)
  show f: "\<exists>e'. IPv4Network (ip @ ''/'' @ mask') = Inl e'"
  proof (cases "CHR ''/'' \<in> set mask'")
    case True
    then show ?thesis using IPv4Network_many [OF ns] by simp
  next
    case False
    then show ?thesis by (simp add: IPv4Network_pair [OF ns] assms e)
  qed
  then show "cidr_from_ip_mask ip mask' =
      Inr \<lparr>network_address = a - a mod 256, prefixlen = 24\<rparr>"
    using fallback_network [OF assms] by (auto simp: cidr_from_ip_mask_def Let_def)
  show "(a - a mod 256) div 256 = a div 256"
    by (simp add: minus_mod_eq_mult_div)
  show "(a - a mod 256) mod 256 = 0"
    by (simp add: minus_mod_eq_mult_div)
qed

theorem cidr_from_ip_mask_result_witness:
  "cidr_from_ip_mask ''10.193.80.64'' ''255.255.0.0'' =
     Inr \<lparr>network_address = 180420608, prefixlen = 16\<rparr> \<and>
   cidr_from_ip_mask ''10.193.80.64'' ''255.0.255.0'' =
     Inr \<lparr>network_address = 180441088, prefixlen = 24\<rparr>"
  using cidr_from_ip_mask_result [OF host_address, of "''255.255.0.0''"]
    cidr_from_ip_mask_result [OF host_address, of "''255.0.255.0''"]
  by (simp add: mask_16 mask_bad)

section \<open>Properties of \<open>light_ping_sweep\<close>\<close>

lemma list_index_Some: "list_index xs y = Some i \<Longrightarrow> i < length xs \<and> xs ! i = y"
  by (induction xs arbitrary: i) (auto split: if_splits)

lemma list_index_None: "list_index xs y = None \<longleftrightarrow> y \<notin> set xs"
  by (induction xs) auto

lemma window_index_range: "0 \<le> window_index hs host' \<and> window_index hs host' \<le> int (length hs)"
  by (auto simp: window_index_def dest: list_index_Some split: option.splits)

lemma window_width_pos: "1 \<le> window_width hs limit"
  by (simp add: window_width_def)

lemma window_width_limit: "2 \<le> limit \<Longrightarrow> 2 * window_width hs limit \<le> limit"
  by (auto simp: window_width_def max_def min_def)

lemma window_width_max: "2 * window_width hs limit \<le> max 2 limit"
  by (auto simp: window_width_def max_def min_def)

lemma probe_window_eq:
  "probe_window hs host' limit =
     take (nat (min (int (length hs)) (window_index hs host' + window_width hs limit)) -
           nat (max 0 (window_index hs host' - window_width hs limit)))
       (drop (nat (max 0 (window_index hs host' - window_width hs limit))) hs)"
  using window_index_range [of hs host'] window_width_pos [of hs limit]
  by (auto simp: probe_window_def slice_def slice_bound_def Let_def max_def min_def nat_diff_distrib)

lemma probe_window_length: "int (length (probe_window hs host' limit)) \<le> 2 * window_width hs limit"
  using window_index_range [of hs host'] window_width_pos [of hs limit]
  by (auto simp: probe_window_eq max_def min_def)

lemma probe_window_subset: "set (probe_window hs host' limit) \<subseteq> set hs"
  unfolding probe_window_eq by (meson set_take_subset set_drop_subset subset_trans)

lemma probe_window_first:
  assumes "list_index hs host' = Some 0"
  shows "probe_window hs host' limit = take (nat (window_width hs limit)) hs"
  using assms window_width_pos [of hs limit]
  by (auto simp: probe_window_eq window_index_def max_def min_def)

lemma probe_window_last:
  assumes "list_index hs host' = Some (length hs - 1)" "hs \<noteq> []"
  shows "probe_window hs host' limit = drop (length hs - 1 - nat (window_width hs limit)) hs"
proof -
  have "window_index hs host' = int (length hs) - 1"
    using assms by (cases hs) (auto simp: window_index_def)
  then show ?thesis
    using window_width_pos [of hs limit]
    by (auto simp: probe_window_eq max_def min_def nat_diff_distrib intro!: arg_cong2 [where f = drop])
qed

lemma first_error_map_None: "(\<And>x. f x = None) \<Longrightarrow> first_error (map f xs) = None"
  by (induction xs) auto

lemma light_ping_sweep_Some:
  assumes "light_ping_sweep h ifname network limit = Inr (Some candidates)"
  obtains host' where "candidates = probe_window (hosts network) host' limit"
  using assms
  by (auto simp: light_ping_sweep_def Let_def split: sum.splits option.splits if_splits prod.splits)

lemma lan_sweep_1:
  "light_ping_sweep lan_host ''en1'' lan 1 = Inr (Some [180441151, 180441152])"
  by code_simp

lemma lan_sweep_64:
  "light_ping_sweep lan_host ''en1'' lan 64 = Inr (Some [180441120..180441183])"
  by code_simp

text \<open>
  What the window satisfies. Its half width is \<open>max(1, ...)\<close>, so it holds at most
  \<open>limit\<close> addresses when \<open>limit\<close> is at least 2. Every candidate is a host of the subnet;
  the candidates are a contiguous run of the host list; and when the host's own address is
  the first or the last of the list, the window stops at that end of the list.
\<close>

lemma light_ping_sweep_window:
  "(\<forall>candidates. light_ping_sweep h ifname network limit = Inr (Some candidates) \<longrightarrow>
      int (length candidates) \<le> max 2 limit \<and>
      (2 \<le> limit \<longrightarrow> int (length candidates) \<le> limit) \<and>
      set candidates \<subseteq> set (hosts network) \<and>
      (\<exists>lo hi. lo \<le> hi \<and> hi \<le> length (hosts network) \<and>
         candidates = take (hi - lo) (drop lo (hosts network)))) \<and>
   (list_index hs host' = Some 0 \<longrightarrow>
      probe_window hs host' limit = take (nat (window_width hs limit)) hs) \<and>
   (hs \<noteq> [] \<and> list_index hs host' = Some (length hs - 1) \<longrightarrow>
      probe_window hs host' limit = drop (length hs - 1 - nat (window_width hs limit)) hs)"
proof (intro conjI allI impI)
  fix candidates
  assume a: "light_ping_sweep h ifname network limit = Inr (Some candidates)"
  then obtain a' where c: "candidates = probe_window (hosts network) a' limit"
    by (rule light_ping_sweep_Some)
  let ?hs = "hosts network"
  let ?lo = "nat (max 0 (window_index ?hs a' - window_width ?hs limit))"
  let ?hi = "nat (min (int (length ?hs)) (window_index ?hs a' + window_width ?hs limit))"
  show "int (length candidates) \<le> max 2 limit"
    using probe_window_length [of ?hs a' limit] window_width_max [of ?hs limit]
    unfolding c by linarith
  show "int (length candidates) \<le> limit" if "2 \<le> limit"
    using probe_window_length [of ?hs a' limit] window_width_limit [OF that, of ?hs]
    unfolding c by linarith
  show "set candidates \<subseteq> set (hosts network)"
    unfolding c by (rule probe_window_subset)
  show "\<exists>lo hi. lo \<le> hi \<and> hi \<le> length (hosts network) \<and>
         candidates = take (hi - lo) (drop lo (hosts network))"
  proof (cases "?lo \<le> ?hi")
    case True
    have "?hi \<le> length ?hs" by simp
    moreover have "candidates = take (?hi - ?lo) (drop ?lo ?hs)"
      unfolding c by (rule probe_window_eq)
    ultimately show ?thesis using True by blast
  next
    case False
    then have "candidates = take (0 - 0) (drop 0 ?hs)"
      unfolding c probe_window_eq by simp
    then show ?thesis by blast
  qed
next
  assume "list_index hs host' = Some 0"
  then show "probe_window hs host' limit = take (nat (window_width hs limit)) hs"
    by (rule probe_window_first)
next
  assume "hs \<noteq> [] \<and> list_index hs host' = Some (length hs - 1)"
  then show "probe_window hs host' limit = drop (length hs - 1 - nat (window_width hs limit)) hs"
    by (simp add: probe_window_last)
qed

lemma light_ping_sweep_window_example:
  "light_ping_sweep lan_host ''en1'' lan 64 = Inr (Some [180441120..180441183]) \<and>
   int (length [180441120..180441183 :: int]) \<le> 64 \<and>
   set [180441120..180441183] \<subseteq> set (hosts lan) \<and>
   probe_window [5, 6, 7] 5 64 = [5] \<and> probe_window [5, 6, 7] 7 64 = [6, 7]"
  using light_ping_sweep_window [of lan_host "''en1''" lan 64 "[5, 6, 7]" 5]
    light_ping_sweep_window [of lan_host "''en1''" lan 64 "[5, 6, 7]" 7]
  by (simp add: lan_sweep_64 window_width_def)

text \<open>
  Claim C2. The window is to hold at most \<open>limit\<close> addresses, all of them hosts of the
  subnet; the comment on line 110 says the same: "We only probe up to \<open>limit\<close> hosts". The
  code does not keep the bound for a limit of 1: on the host \<open>10.193.80.64\<close> in
  \<open>10.193.80.0/24\<close> the half width is \<open>max(1, min(0, 127)) = 1\<close> and the sweep probes the
  two addresses \<open>10.193.80.63\<close> and \<open>10.193.80.64\<close>.
\<close>

theorem light_ping_sweep_limit_1:
  "light_ping_sweep lan_host ''en1'' lan 1 = Inr (Some [180441151, 180441152]) \<and>
   \<not> int (length [180441151, 180441152 :: int]) \<le> 1"
  by (simp add: lan_sweep_1)

lemma lan_host_query: "get_if_ip_netmask lan_host ''en1'' = Inr (Some ''10.193.80.64'', Some ''255.255.255.0'')"
  by code_simp

lemma lan_host_popen: "popen lan_host cmd = None"
  by (simp add: lan_host_def printing_def)

lemma lan_host_address: "IPv4Address ''10.193.80.64'' = Inr 180441152"
  by code_simp

lemma other_lan_notin: "(180441152 :: int) \<notin> set (hosts other_lan)"
  by code_simp

lemma other_window:
  "slice (hosts other_lan)
     (max 0 (int (length (hosts other_lan)) div 2 - window_width (hosts other_lan) 64))
     (min (int (length (hosts other_lan)))
        (int (length (hosts other_lan)) div 2 + window_width (hosts other_lan) 64)) =
   [3232235872..3232235935]"
  by code_simp

text \<open>
  Claim C9. When the host's own address is not among the hosts of the subnet, the sweep
  does not fail: it takes the midpoint of the host list, its length divided by two, as the
  centre of the window.
\<close>

theorem light_ping_sweep_midpoint:
  assumes "get_if_ip_netmask h ifname = Inr (Some s, m)" and "s \<noteq> []"
    and "IPv4Address s = Inr host'" and "host' \<notin> set (hosts network)"
    and "\<forall>cmd. popen h cmd = None"
  shows "window_index (hosts network) host' = int (length (hosts network)) div 2 \<and>
         light_ping_sweep h ifname network limit =
           Inr (Some (slice (hosts network)
             (max 0 (int (length (hosts network)) div 2 - window_width (hosts network) limit))
             (min (int (length (hosts network)))
                (int (length (hosts network)) div 2 + window_width (hosts network) limit))))"
proof -
  have i: "window_index (hosts network) host' = int (length (hosts network)) div 2"
    using assms(4) by (simp add: window_index_def list_index_None [THEN iffD2])
  have "first_error (map (\<lambda>ip. popen h [''ping'', ''-c'', ''1'', ''-W'', ''100'', str_ipv4 ip]) cs) = None" for cs
    using assms(5) by (simp add: first_error_map_None)
  then have "light_ping_sweep h ifname network limit =
      Inr (Some (probe_window (hosts network) host' limit))"
    using assms(1-3) by (simp add: light_ping_sweep_def Let_def)
  then show ?thesis by (simp add: i probe_window_def Let_def)
qed

theorem light_ping_sweep_midpoint_witness:
  "light_ping_sweep lan_host ''en1'' other_lan 64 = Inr (Some [3232235872..3232235935])"
proof -
  have p: "\<forall>cmd. popen lan_host cmd = None" by (simp add: lan_host_popen)
  have ne: "''10.193.80.64'' \<noteq> []" by simp
  from light_ping_sweep_midpoint [OF lan_host_query ne lan_host_address other_lan_notin p, of 64]
  have "light_ping_sweep lan_host ''en1'' other_lan 64 =
      Inr (Some (slice (hosts other_lan)
        (max 0 (int (length (hosts other_lan)) div 2 - window_width (hosts other_lan) 64))
        (min (int (length (hosts other_lan)))
           (int (length (hosts other_lan)) div 2 + window_width (hosts other_lan) 64))))"
    by (rule conjunct2)
  then show ?thesis by (simp only: other_window)
qed

section \<open>Properties of the discovery loop\<close>

lemma loop_stop:
  "\<not> now - t0 < timeout \<Longrightarrow>
     discovery_loop w ifname subnet mac_lower t0 timeout next_sweep now sweeps = Inr (None, now, sweeps)"
  by (subst discovery_loop.simps) simp

lemma loop_poll:
  assumes "now - t0 < timeout" and "arp_lookup_by_mac (w now) mac_lower = Inr None"
    and "subnet = None \<or> now < next_sweep"
  shows "discovery_loop w ifname subnet mac_lower t0 timeout next_sweep now sweeps =
         discovery_loop w ifname subnet mac_lower t0 timeout next_sweep (now + 1 / 2) sweeps"
  using assms by (subst discovery_loop.simps) auto

lemma loop_sweep:
  assumes "now - t0 < timeout" and "arp_lookup_by_mac (w now) mac_lower = Inr None"
    and "next_sweep \<le> now" and "light_ping_sweep (w now) ifname net 64 = Inr did"
  shows "discovery_loop w ifname (Some net) mac_lower t0 timeout next_sweep now sweeps =
         discovery_loop w ifname (Some net) mac_lower t0 timeout
           ((if did = None then now else now + 1 / 2) + 5)
           ((if did = None then now else now + 1 / 2) + 1 / 2)
           (sweeps @ [(now, did)])"
  using assms by (subst discovery_loop.simps) (simp add: Let_def)

lemma loop_timeout_2:
  assumes cache: "\<forall>t. arp_lookup_by_mac (w t) mac_lower = Inr None"
    and sweep: "light_ping_sweep (w (t0 + 1)) ifname net 64 = Inr did"
  shows "discovery_loop w ifname (Some net) mac_lower t0 2 (t0 + 1) t0 [] =
           Inr (None, t0 + 2, [(t0 + 1, did)])"
proof -
  have c: "arp_lookup_by_mac (w t) mac_lower = Inr None" for t using cache by simp
  have "discovery_loop w ifname (Some net) mac_lower t0 2 (t0 + 1) t0 [] =
        discovery_loop w ifname (Some net) mac_lower t0 2 (t0 + 1) (t0 + 1 / 2) []"
    by (rule loop_poll) (simp_all add: c)
  also have "\<dots> = discovery_loop w ifname (Some net) mac_lower t0 2 (t0 + 1) (t0 + 1 / 2 + 1 / 2) []"
    by (rule loop_poll) (simp_all add: c)
  also have "t0 + 1 / 2 + 1 / 2 = t0 + 1" by simp
  also have "discovery_loop w ifname (Some net) mac_lower t0 2 (t0 + 1) (t0 + 1) [] =
        discovery_loop w ifname (Some net) mac_lower t0 2
          ((if did = None then t0 + 1 else t0 + 1 + 1 / 2) + 5)
          ((if did = None then t0 + 1 else t0 + 1 + 1 / 2) + 1 / 2)
          ([] @ [(t0 + 1, did)])"
    by (rule loop_sweep) (simp_all add: c sweep)
  also have "\<dots> = Inr (None, t0 + 2, [(t0 + 1, did)])"
  proof (cases "did = None")
    case True
    have "discovery_loop w ifname (Some net) mac_lower t0 2 (t0 + 1 + 5) (t0 + 1 + 1 / 2) [(t0 + 1, did)] =
          discovery_loop w ifname (Some net) mac_lower t0 2 (t0 + 1 + 5) (t0 + 1 + 1 / 2 + 1 / 2) [(t0 + 1, did)]"
      by (rule loop_poll) (simp_all add: c)
    also have "t0 + 1 + 1 / 2 + 1 / 2 = t0 + 2" by simp
    also have "discovery_loop w ifname (Some net) mac_lower t0 2 (t0 + 1 + 5) (t0 + 2) [(t0 + 1, did)] =
          Inr (None, t0 + 2, [(t0 + 1, did)])"
      by (rule loop_stop) simp
    finally show ?thesis using True by simp
  next
    case False
    then have "discovery_loop w ifname (Some net) mac_lower t0 2
          ((if did = None then t0 + 1 else t0 + 1 + 1 / 2) + 5)
          ((if did = None then t0 + 1 else t0 + 1 + 1 / 2) + 1 / 2)
          ([] @ [(t0 + 1, did)]) =
        discovery_loop w ifname (Some net) mac_lower t0 2 (t0 + 1 + 1 / 2 + 5)
          (t0 + 1 + 1 / 2 + 1 / 2) [(t0 + 1, did)]"
      by (simp only: if_False append_Nil)
    also have "\<dots> = Inr (None, t0 + 1 + 1 / 2 + 1 / 2, [(t0 + 1, did)])"
      by (rule loop_stop) simp
    also have "t0 + 1 + 1 / 2 + 1 / 2 = t0 + 2" by simp
    finally show ?thesis .
  qed
  finally show ?thesis .
qed

lemma lan_cache: "arp_lookup_by_mac lan_host mac_lower = Inr None"
  by (simp add: arp_lookup_by_mac_def run_def lan_host_def printing_def strip_def)

lemma lan_cidr: "cidr_from_ip_mask ''10.193.80.64'' ''255.255.255.0'' = Inr lan"
  by code_simp

text \<open>
  Claim C5, as the code has it. The clock advances by the sleeps only. When the subnet of
  the host is known, the neighbour cache never shows the target MAC and the sweep does not
  raise, a run with a timeout of 2 seconds ends with no address found when 2 seconds have
  passed, having fired exactly one sweep, 1 second after the loop started: \<open>next_sweep\<close>
  starts at \<open>time.time() + 1.0\<close>, so the first two iterations only poll.
\<close>

theorem discover_times_out:
  assumes "get_if_ip_netmask (w start) ifname = Inr (Some ip, Some m)" and "ip \<noteq> []" and "m \<noteq> []"
    and "cidr_from_ip_mask ip m = Inr net"
    and "\<forall>t. arp_lookup_by_mac (w t) (lower mac) = Inr None"
    and "light_ping_sweep (w (start + 1)) ifname net 64 = Inr did"
  shows "discover w ifname mac 2 start = Inr (None, start + 2, [(start + 1, did)]) \<and>
         sweep_times (discover w ifname mac 2 start) = [start + 1]"
proof -
  have "discover w ifname mac 2 start =
          discovery_loop w ifname (Some net) (lower mac) start 2 (start + 1) start []"
    using assms(1-4) by (simp add: discover_def)
  also have "\<dots> = Inr (None, start + 2, [(start + 1, did)])"
    using assms(5,6) by (rule loop_timeout_2)
  finally show ?thesis by (simp add: sweep_times_def)
qed

theorem discover_times_out_witness:
  "discover (\<lambda>t. lan_host) ''en1'' ''52:54:00:11:22:33'' 2 0 =
     Inr (None, 2, [(1, Some [180441120..180441183])])"
proof -
  have ne: "''10.193.80.64'' \<noteq> []" "''255.255.255.0'' \<noteq> []" by simp_all
  have c: "\<forall>t :: rat. arp_lookup_by_mac lan_host (lower ''52:54:00:11:22:33'') = Inr None"
    by (simp add: lan_cache)
  from discover_times_out [where w = "\<lambda>t. lan_host" and start = 0,
      OF lan_host_query ne lan_cidr c lan_sweep_64]
  have "discover (\<lambda>t. lan_host) ''en1'' ''52:54:00:11:22:33'' 2 0 =
      Inr (None, 0 + 2, [(0 + 1, Some [180441120..180441183])])"
    by (rule conjunct1)
  then show ?thesis by (simp only: add_0)
qed

text \<open>
  The claim as stated fails: the one sweep of such a run is not fired when the loop
  starts, at time 0, but at time 1.
\<close>

theorem discover_sweep_not_at_start:
  "sweep_times (discover (\<lambda>t. lan_host) ''en1'' ''52:54:00:11:22:33'' 2 0) = [1] \<and>
   sweep_times (discover (\<lambda>t. lan_host) ''en1'' ''52:54:00:11:22:33'' 2 0) \<noteq> [0]"
proof -
  have "discover (\<lambda>t. lan_host) ''en1'' ''52:54:00:11:22:33'' 2 0 =
          discovery_loop (\<lambda>t. lan_host) ''en1'' (Some lan) (lower ''52:54:00:11:22:33'') 0 2 (0 + 1) 0 []"
    by (simp add: discover_def lan_host_query lan_cidr)
  also have "\<dots> = Inr (None, 0 + 2, [(0 + 1, Some [180441120..180441183])])"
    by (rule loop_timeout_2) (simp_all only: lan_cache lan_sweep_64 simp_thms)
  finally show ?thesis by (simp add: sweep_times_def)
qed


end
